theory Spec2Isabelle
  imports Complex_Main "HOL-Library.Sublist"
begin

section \<open>The ACF to SDF converter of \<^verbatim>\<open>Converter.py\<close>\<close>

text \<open>
  A shallow embedding of the class \<^verbatim>\<open>AcfToSdfConverter\<close>. Conventions:
  \<^item> a Python \<^verbatim>\<open>float\<close> is a \<open>pyfloat\<close>: a finite value, an infinity or NaN. A finite
    value is a real, and a finite result is exact unless it overflows to an infinity:
    rounding is outside the model;
  \<^item> a Python \<^verbatim>\<open>str\<close> is a \<open>string\<close> whose characters stand for the code points below 256;
  \<^item> a Python \<^verbatim>\<open>dict\<close> is an association list with distinct keys, kept in insertion order
    (the order \<^verbatim>\<open>items()\<close> iterates in);
  \<^item> an exception is a value of \<open>error\<close>, and a function that may raise returns
    \<open>error + 'a\<close>;
  \<^item> \<^verbatim>\<open>print\<close> appends to a list of diagnostics;
  \<^item> the builtin \<^verbatim>\<open>float\<close> applied to a \<^verbatim>\<open>str\<close> is a parameter \<open>pf\<close> of the functions
    that call it: \<open>pf s = None\<close> where Python raises \<^verbatim>\<open>ValueError\<close>;
  \<^item> a function that returns XML text returns the numbers the text is formatted from;
  \<^item> the generators of the engines, the wings and the landing gear are not modelled.
\<close>

subsection \<open>Values, errors, diagnostics\<close>

datatype error = ValueError | TypeError | KeyError | IndexError

subsection \<open>Floats\<close>

text \<open>
  The values \<^verbatim>\<open>float(s)\<close> can return: \<^verbatim>\<open>float('nan')\<close> is \<open>NaN\<close>, \<^verbatim>\<open>float('inf')\<close> and
  \<^verbatim>\<open>float('1e999')\<close> are \<open>PInf\<close>. Negation, sum, difference, product and comparison follow
  IEEE 754 on the infinities and on NaN, as Python's do. A sum or a product of finite
  values whose exact result is beyond the range of a double is the infinity of its sign
  (\<open>overflow_at\<close> is where rounding to nearest reaches the infinity).
\<close>

datatype pyfloat = Finite real | PInf | NInf | NaN

definition overflow_at :: real where
  "overflow_at = 2 ^ 1024 - 2 ^ 970"

definition ovf :: "real \<Rightarrow> pyfloat" where
  "ovf x = (if overflow_at \<le> x then PInf else if x \<le> - overflow_at then NInf else Finite x)"

instantiation pyfloat :: "{uminus, plus, minus, times, ord}"
begin

fun uminus_pyfloat :: "pyfloat \<Rightarrow> pyfloat" where
  "- Finite x = Finite (- x)"
| "- PInf = NInf"
| "- NInf = PInf"
| "- NaN = NaN"

fun plus_pyfloat :: "pyfloat \<Rightarrow> pyfloat \<Rightarrow> pyfloat" where
  "Finite x + Finite y = ovf (x + y)"
| "NaN + b = NaN"
| "a + NaN = NaN"
| "PInf + NInf = NaN"
| "NInf + PInf = NaN"
| "PInf + b = PInf"
| "a + PInf = PInf"
| "NInf + b = NInf"
| "a + NInf = NInf"

definition minus_pyfloat :: "pyfloat \<Rightarrow> pyfloat \<Rightarrow> pyfloat" where
  "(a::pyfloat) - b = a + (- b)"

fun times_pyfloat :: "pyfloat \<Rightarrow> pyfloat \<Rightarrow> pyfloat" where
  "Finite x * Finite y = ovf (x * y)"
| "NaN * b = NaN"
| "a * NaN = NaN"
| "PInf * Finite y = (if 0 < y then PInf else if y < 0 then NInf else NaN)"
| "NInf * Finite y = (if 0 < y then NInf else if y < 0 then PInf else NaN)"
| "Finite x * PInf = (if 0 < x then PInf else if x < 0 then NInf else NaN)"
| "Finite x * NInf = (if 0 < x then NInf else if x < 0 then PInf else NaN)"
| "PInf * PInf = PInf"
| "PInf * NInf = NInf"
| "NInf * PInf = NInf"
| "NInf * NInf = PInf"

fun less_pyfloat :: "pyfloat \<Rightarrow> pyfloat \<Rightarrow> bool" where
  "Finite x < Finite y = (x < y)"
| "NaN < b = False"
| "a < NaN = False"
| "a < NInf = False"
| "PInf < b = False"
| "NInf < b = True"
| "a < PInf = True"

definition less_eq_pyfloat :: "pyfloat \<Rightarrow> pyfloat \<Rightarrow> bool" where
  "(a::pyfloat) \<le> b = (a < b \<or> (a = b \<and> a \<noteq> NaN))"

instance ..

end

text \<open>\<^verbatim>\<open>x / 2\<close>\<close>

fun half :: "pyfloat \<Rightarrow> pyfloat" where
  "half (Finite x) = Finite (x / 2)"
| "half a = a"

text \<open>
  \<^verbatim>\<open>min(xs)\<close> and \<^verbatim>\<open>max(xs)\<close> of a list that is not empty (the callers have checked), and
  \<^verbatim>\<open>max(a, b)\<close> as \<open>py_max [a, b]\<close>: the first element is kept until a later one is
  smaller (larger). A comparison with NaN is false, so the result depends on the order.
\<close>

definition py_min :: "pyfloat list \<Rightarrow> pyfloat" where
  "py_min xs = fold (\<lambda>x best. if x < best then x else best) (tl xs) (hd xs)"

definition py_max :: "pyfloat list \<Rightarrow> pyfloat" where
  "py_max xs = fold (\<lambda>x best. if best < x then x else best) (tl xs) (hd xs)"

text \<open>What a value token of a line is parsed to: a float, or the token itself.\<close>

datatype tok = Num pyfloat | Txt string

text \<open>What the store holds under a key: the single token, or the list of all of them.\<close>

datatype pyval = One tok | Many "tok list"

type_synonym store = "(string \<times> pyval) list"

record converter =
  data :: store
  LB_TO_KG :: pyfloat
  FT_TO_M :: pyfloat
  DEFAULT_INERTIA :: pyfloat
  default_power_watt :: pyfloat
  default_rotor_inertia :: pyfloat
  mass_lb :: pyval

subsection \<open>Strings\<close>

text \<open>
  The characters \<^verbatim>\<open>str.isspace\<close> accepts, among the code points below 256: tab to carriage
  return, the four separators \<^verbatim>\<open>0x1c\<close> to \<^verbatim>\<open>0x1f\<close>, the space, \<^verbatim>\<open>0x85\<close> and \<^verbatim>\<open>0xa0\<close>.
  They are what \<^verbatim>\<open>strip()\<close> removes and \<^verbatim>\<open>split()\<close> splits at.
\<close>

definition whitespace :: "char list" where
  "whitespace = [CHR 0x09, CHR 0x0A, CHR 0x0B, CHR 0x0C, CHR 0x0D, CHR 0x1C, CHR 0x1D,
     CHR 0x1E, CHR 0x1F, CHR '' '', CHR 0x85, CHR 0xA0]"

definition isspace :: "char \<Rightarrow> bool" where
  "isspace c = (c \<in> set whitespace)"

text \<open>\<^verbatim>\<open>s.strip()\<close>\<close>

definition strip :: "string \<Rightarrow> string" where
  "strip s = rev (dropWhile isspace (rev (dropWhile isspace s)))"

text \<open>\<^verbatim>\<open>s.split()\<close>: the maximal runs of characters that are not whitespace.\<close>

function split_ws :: "string \<Rightarrow> string list" where
  "split_ws s =
     (case dropWhile isspace s of
        [] \<Rightarrow> []
      | c # cs \<Rightarrow> (c # takeWhile (\<lambda>d. \<not> isspace d) cs) # split_ws (dropWhile (\<lambda>d. \<not> isspace d) cs))"
  by pat_completeness auto
termination
proof (relation "measure length")
  show "wf (measure length)" by simp
next
  fix s :: string and c cs
  assume "dropWhile isspace s = c # cs"
  then have "length (c # cs) \<le> length s"
    by (metis length_dropWhile_le)
  moreover have "length (dropWhile (\<lambda>d. \<not> isspace d) cs) \<le> length cs"
    by (rule length_dropWhile_le)
  ultimately show "(dropWhile (\<lambda>d. \<not> isspace d) cs, s) \<in> measure length"
    by simp
qed

declare split_ws.simps [simp del]

text \<open>\<^verbatim>\<open>s.split(sep)\<close> for a separator of one character: never the empty list.\<close>

fun split_on :: "char \<Rightarrow> string \<Rightarrow> string list" where
  "split_on sep [] = [[]]"
| "split_on sep (c # cs) =
     (if c = sep then [] # split_on sep cs
      else (case split_on sep cs of [] \<Rightarrow> [[c]] | w # ws \<Rightarrow> (c # w) # ws))"

text \<open>\<^verbatim>\<open>s.startswith(p)\<close>, \<^verbatim>\<open>s.endswith(p)\<close> and \<^verbatim>\<open>p in s\<close>\<close>

definition startswith :: "string \<Rightarrow> string \<Rightarrow> bool" where
  "startswith s p = (take (length p) s = p)"

definition endswith :: "string \<Rightarrow> string \<Rightarrow> bool" where
  "endswith s p = (length p \<le> length s \<and> drop (length s - length p) s = p)"

fun contains :: "string \<Rightarrow> string \<Rightarrow> bool" where
  "contains p [] = (p = [])"
| "contains p (c # cs) = (startswith (c # cs) p \<or> contains p cs)"

text \<open>
  \<^verbatim>\<open>s.isdigit()\<close>: below 256 the digits are \<^verbatim>\<open>0\<close> to \<^verbatim>\<open>9\<close> and the superscripts
  \<^verbatim>\<open>0xb2\<close>, \<^verbatim>\<open>0xb3\<close>, \<^verbatim>\<open>0xb9\<close>. \<^verbatim>\<open>int(s)\<close> reads the former and raises \<^verbatim>\<open>ValueError\<close> on
  the latter. A Python \<^verbatim>\<open>int\<close> that is never negative is a \<open>nat\<close>; the bound that recent
  interpreters put on the number of digits \<^verbatim>\<open>int(s)\<close> accepts is not modelled.
\<close>

definition digits :: "char list" where
  "digits = ''0123456789''"

definition superscripts :: "char list" where
  "superscripts = [CHR 0xB2, CHR 0xB3, CHR 0xB9]"

definition isdigit :: "string \<Rightarrow> bool" where
  "isdigit s = (s \<noteq> [] \<and> list_all (\<lambda>c. c \<in> set digits \<or> c \<in> set superscripts) s)"

definition digit_val :: "char \<Rightarrow> nat" where
  "digit_val c = length (takeWhile (\<lambda>d. d \<noteq> c) digits)"

definition py_int :: "string \<Rightarrow> error + nat" where
  "py_int s =
     (if s \<noteq> [] \<and> list_all (\<lambda>c. c \<in> set digits) s
      then Inr (fold (\<lambda>c n. 10 * n + digit_val c) s 0)
      else Inl ValueError)"

text \<open>\<^verbatim>\<open>str(n)\<close> of a natural number, as the f-strings format a part index.\<close>

function str_nat :: "nat \<Rightarrow> string" where
  "str_nat n = (if n < 10 then [digits ! n] else str_nat (n div 10) @ [digits ! (n mod 10)])"
  by pat_completeness auto
termination
  by (relation "measure id") auto

declare str_nat.simps [simp del]

text \<open>\<^verbatim>\<open>xs.index(x)\<close>, called only where \<^verbatim>\<open>x in xs\<close>.\<close>

definition list_index :: "'a list \<Rightarrow> 'a \<Rightarrow> nat" where
  "list_index xs x = length (takeWhile (\<lambda>y. y \<noteq> x) xs)"

subsection \<open>Dictionaries and exceptions\<close>

text \<open>\<^verbatim>\<open>d[k] = v\<close>: a key already there keeps its place, a new key goes last.\<close>

fun dict_set :: "('k \<times> 'v) list \<Rightarrow> 'k \<Rightarrow> 'v \<Rightarrow> ('k \<times> 'v) list" where
  "dict_set [] k v = [(k, v)]"
| "dict_set ((k', v') # d) k v = (if k' = k then (k, v) # d else (k', v') # dict_set d k v)"

text \<open>Sequencing of computations that may raise.\<close>

definition sum_bind :: "error + 'a \<Rightarrow> ('a \<Rightarrow> error + 'b) \<Rightarrow> error + 'b" where
  "sum_bind m f = (case m of Inl e \<Rightarrow> Inl e | Inr x \<Rightarrow> f x)"

text \<open>\<^verbatim>\<open>float(v)\<close> of a stored token, and of a stored value (a list is a \<^verbatim>\<open>TypeError\<close>).\<close>

fun float_tok :: "(string \<Rightarrow> pyfloat option) \<Rightarrow> tok \<Rightarrow> error + pyfloat" where
  "float_tok pf (Num x) = Inr x"
| "float_tok pf (Txt s) = (case pf s of None \<Rightarrow> Inl ValueError | Some x \<Rightarrow> Inr x)"

fun py_float :: "(string \<Rightarrow> pyfloat option) \<Rightarrow> pyval \<Rightarrow> error + pyfloat" where
  "py_float pf (One t) = float_tok pf t"
| "py_float pf (Many ts) = Inl TypeError"

subsection \<open>\<^verbatim>\<open>_parse_acf\<close>\<close>

text \<open>
  The body of the loop over the lines: \<open>None\<close> where the line is skipped, the key and the
  value assigned to it otherwise.
\<close>

definition parse_line :: "(string \<Rightarrow> pyfloat option) \<Rightarrow> string \<Rightarrow> (string \<times> pyval) option" where
  "parse_line pf line0 =
     (let line = strip line0 in
      if line = [] \<or> \<not> startswith line ''P '' then None
      else
        let parts = split_ws line in
        if length parts \<ge> 3 then
          let key = parts ! 1;
              values = drop 2 parts;
              parsed_values = map (\<lambda>v. case pf v of Some x \<Rightarrow> Num x | None \<Rightarrow> Txt v) values
          in Some (key, if length parsed_values = 1 then One (parsed_values ! 0)
                        else Many parsed_values)
        else None)"

definition parse_acf :: "(string \<Rightarrow> pyfloat option) \<Rightarrow> string \<Rightarrow> store" where
  "parse_acf pf content =
     fold (\<lambda>line d. case parse_line pf line of None \<Rightarrow> d | Some (key, v) \<Rightarrow> dict_set d key v)
       (split_on (CHR 0x0A) (strip content)) []"

subsection \<open>\<^verbatim>\<open>convert_coords\<close>\<close>

definition convert_coords ::
  "converter \<Rightarrow> pyfloat \<Rightarrow> pyfloat \<Rightarrow> pyfloat \<Rightarrow> pyfloat \<times> pyfloat \<times> pyfloat" where
  "convert_coords self xp_x_lat xp_y_vert xp_z_long =
     (let gz_x = - (xp_z_long * FT_TO_M self);
          gz_y = - (xp_x_lat * FT_TO_M self);
          gz_z = xp_y_vert * FT_TO_M self
      in (gz_x, gz_y, gz_z))"


subsection \<open>\<^verbatim>\<open>get_value\<close>\<close>

fun first_endswith :: "store \<Rightarrow> string \<Rightarrow> pyval option" where
  "first_endswith [] key_suffix = None"
| "first_endswith ((key, val) # items) key_suffix =
     (if endswith key key_suffix then Some val else first_endswith items key_suffix)"

definition get_value :: "converter \<Rightarrow> string \<Rightarrow> pyval \<Rightarrow> pyval" where
  "get_value self key_suffix dflt =
     (case map_of (data self) key_suffix of
        Some v \<Rightarrow> v
      | None \<Rightarrow> (case first_endswith (data self) key_suffix of Some v \<Rightarrow> v | None \<Rightarrow> dflt))"

subsection \<open>\<^verbatim>\<open>__init__\<close>\<close>

text \<open>\<^verbatim>\<open>v == 0\<close>: false for a string and for a list.\<close>

fun eq_zero :: "pyval \<Rightarrow> bool" where
  "eq_zero (One (Num x)) = (x = Finite 0)"
| "eq_zero _ = False"

definition init :: "(string \<Rightarrow> pyfloat option) \<Rightarrow> string \<Rightarrow> converter" where
  "init pf acf_content =
     (let self = \<lparr>data = parse_acf pf acf_content, LB_TO_KG = Finite 0.453592,
                  FT_TO_M = Finite 0.3048, DEFAULT_INERTIA = Finite 0.1,
                  default_power_watt = Finite 400, default_rotor_inertia = Finite 0.0001,
                  mass_lb = One (Num (Finite 0))\<rparr>;
          self = self\<lparr>mass_lb := get_value self ''acf/_m_empty'' (One (Num (Finite 0)))\<rparr>
      in if eq_zero (mass_lb self)
         then self\<lparr>mass_lb := get_value self ''_cgpt/0/_w_now'' (One (Num (Finite 0)))\<rparr>
         else self)"

subsection \<open>\<^verbatim>\<open>generate_inertial_xml\<close>\<close>

text \<open>What the functions print, in order.\<close>

datatype diag =
    Info_mass pyfloat pyfloat
  | Warn_mass
  | Debug_error string error
  | Warn_no_points nat
  | Info_points nat nat

text \<open>The numbers the returned \<^verbatim>\<open><inertial>\<close> block is formatted from.\<close>

record inertial =
  mass :: pyfloat
  i_xx :: pyfloat
  i_yy :: pyfloat
  i_zz :: pyfloat

text \<open>
  The result is the printed diagnostics and what the call does next: it raises (\<open>Inl\<close>),
  returns \<^verbatim>\<open>None\<close> by reaching the end of the body (\<open>Inr None\<close>), or returns the block.
  \<^verbatim>\<open>self.mass_lb > 0\<close> is a \<^verbatim>\<open>TypeError\<close> for a string and for a list. The \<^verbatim>\<open>return\<close>
  stands inside the \<^verbatim>\<open>else\<close> branch, as the source indents it.
\<close>

definition generate_inertial_xml :: "converter \<Rightarrow> diag list \<times> (error + inertial option)" where
  "generate_inertial_xml self =
     (let mass_kg = Finite 1 in
      case mass_lb self of
        One (Num m) \<Rightarrow>
          if m > Finite 0 then
            (let mass_kg = m * LB_TO_KG self
             in ([Info_mass m mass_kg], Inr None))
          else
            (let ixx = mass_kg * Finite 0.05; iyy = mass_kg * Finite 0.05;
                 izz = mass_kg * Finite 0.05
             in ([Warn_mass], Inr (Some \<lparr>mass = mass_kg, i_xx = ixx, i_yy = iyy, i_zz = izz\<rparr>)))
      | _ \<Rightarrow> ([], Inl TypeError))"

subsection \<open>\<^verbatim>\<open>generate_fuselage_collisions\<close>\<close>

text \<open>The three buckets \<^verbatim>\<open>{0: [], 1: [], 2: []}\<close> of a part.\<close>

type_synonym bounds = "pyfloat list \<times> pyfloat list \<times> pyfloat list"

text \<open>
  The numbers one \<^verbatim>\<open><collision>\<close> block and its \<^verbatim>\<open><visual>\<close> twin are formatted from.
\<close>

record collision =
  part :: nat
  pose_x :: pyfloat
  pose_y :: pyfloat
  pose_z :: pyfloat
  size_x :: pyfloat
  size_y :: pyfloat
  size_z :: pyfloat

text \<open>
  Steps 1 to 3 of the \<^verbatim>\<open>try\<close> block, which do not touch \<^verbatim>\<open>parts_bounds\<close>: \<open>Inl\<close> is an
  exception (caught by the \<^verbatim>\<open>except\<close>), \<open>Inr None\<close> a \<^verbatim>\<open>continue\<close>, and
  \<open>Inr (Some (part_idx, axis, val_float))\<close> the point to store.
\<close>

definition parse_point ::
  "(string \<Rightarrow> pyfloat option) \<Rightarrow> string \<Rightarrow> pyval \<Rightarrow> error + (nat \<times> nat \<times> pyfloat) option" where
  "parse_point pf key val =
     (let segments = split_on (CHR ''/'') key in
      if ''_part'' \<in> set segments then
        let idx_tag = list_index segments ''_part'' in
        if length segments > idx_tag + 1 \<and> isdigit (segments ! (idx_tag + 1)) then
          sum_bind (py_int (segments ! (idx_tag + 1))) (\<lambda>part_idx.
            let grid_segment = last segments;
                grid_coords = split_on (CHR '','') grid_segment
            in if length grid_coords \<noteq> 3 then Inr None
               else
                 let axis_str = grid_coords ! 2 in
                 if \<not> isdigit axis_str then Inr None
                 else
                   sum_bind (py_int axis_str) (\<lambda>axis.
                   sum_bind (case val of
                               Many [] \<Rightarrow> Inl IndexError
                             | Many (t # _) \<Rightarrow> float_tok pf t
                             | One t \<Rightarrow> float_tok pf t) (\<lambda>val_float.
                   Inr (Some (part_idx, axis, val_float)))))
        else Inr None
      else Inr None)"

text \<open>
  Step 4: the part's buckets are created when the part is new, then the value is
  appended to the bucket of its axis; an axis other than 0, 1, 2 is a \<^verbatim>\<open>KeyError\<close>,
  raised after the buckets were created.
\<close>

definition store_point ::
  "(nat \<times> bounds) list \<Rightarrow> nat \<times> nat \<times> pyfloat \<Rightarrow> (nat \<times> bounds) list \<times> error option" where
  "store_point parts_bounds0 p =
     (case p of (part_idx, axis, val_float) \<Rightarrow>
        let parts_bounds = (if map_of parts_bounds0 part_idx = None
                            then dict_set parts_bounds0 part_idx ([], [], [])
                            else parts_bounds0)
        in case map_of parts_bounds part_idx of
             None \<Rightarrow> (parts_bounds, Some KeyError)
           | Some (b0, b1, b2) \<Rightarrow>
               if axis = 0 then (dict_set parts_bounds part_idx (b0 @ [val_float], b1, b2), None)
               else if axis = 1 then (dict_set parts_bounds part_idx (b0, b1 @ [val_float], b2), None)
               else if axis = 2 then (dict_set parts_bounds part_idx (b0, b1, b2 @ [val_float]), None)
               else (parts_bounds, Some KeyError))"

text \<open>One iteration of the scan over \<^verbatim>\<open>self.data.items()\<close>.\<close>

type_synonym scan_state = "(nat \<times> bounds) list \<times> nat \<times> diag list"

definition scan_item :: "(string \<Rightarrow> pyfloat option) \<Rightarrow> string \<times> pyval \<Rightarrow> scan_state \<Rightarrow> scan_state" where
  "scan_item pf item st =
     (case (item, st) of ((key, val), (parts_bounds, count_points, diags)) \<Rightarrow>
        if contains ''_geo_xyz'' key \<and> contains ''_part/'' key then
          (case parse_point pf key val of
             Inl e \<Rightarrow> (parts_bounds, count_points, diags @ [Debug_error key e])
           | Inr None \<Rightarrow> (parts_bounds, count_points, diags)
           | Inr (Some p) \<Rightarrow>
               (case store_point parts_bounds p of
                  (parts_bounds', Some e) \<Rightarrow>
                    (parts_bounds', count_points, diags @ [Debug_error key e])
                | (parts_bounds', None) \<Rightarrow> (parts_bounds', count_points + 1, diags)))
        else (parts_bounds, count_points, diags))"

definition scan :: "(string \<Rightarrow> pyfloat option) \<Rightarrow> converter \<Rightarrow> scan_state" where
  "scan pf self = fold (scan_item pf) (data self) ([], 0, [])"

text \<open>
  The body of the loop over \<^verbatim>\<open>parts_bounds.items()\<close>: \<open>Inr None\<close> is a \<^verbatim>\<open>continue\<close>.
  The first equation is the case of three buckets that are not empty. The three
  \<^verbatim>\<open>float(...)\<close> of the offsets stand outside any \<^verbatim>\<open>try\<close>.
\<close>

fun emit_part ::
  "(string \<Rightarrow> pyfloat option) \<Rightarrow> converter \<Rightarrow> nat \<Rightarrow> bounds \<Rightarrow> error + collision option" where
  "emit_part pf self idx (l # ls, w # ws, h # hs) =
     (let min_l = py_min (l # ls); max_l = py_max (l # ls);
          min_w = py_min (w # ws); max_w = py_max (w # ws);
          min_h = py_min (h # hs); max_h = py_max (h # hs);
          size_l = max_l - min_l;
          size_w = max_w - min_w;
          size_h = max_h - min_h
      in if size_l < Finite 0.01 \<and> size_w < Finite 0.01 then Inr None
         else
           let center_l = half (min_l + max_l);
               center_w = half (min_w + max_w);
               center_h = half (min_h + max_h)
           in
             sum_bind (py_float pf (get_value self (''_part/'' @ str_nat idx @ ''/_part_x'') (One (Num (Finite 0))))) (\<lambda>off_x.
             sum_bind (py_float pf (get_value self (''_part/'' @ str_nat idx @ ''/_part_y'') (One (Num (Finite 0))))) (\<lambda>off_y.
             sum_bind (py_float pf (get_value self (''_part/'' @ str_nat idx @ ''/_part_z'') (One (Num (Finite 0))))) (\<lambda>off_z.
               let tot_long = off_z + center_l;
                   tot_lat = off_x + center_w;
                   tot_vert = off_y + center_h;
                   gz_x = - (tot_long * FT_TO_M self);
                   gz_y = - (tot_lat * FT_TO_M self);
                   gz_z = tot_vert * FT_TO_M self;
                   dim_x = py_max [size_l * FT_TO_M self, Finite 0.05];
                   dim_y = py_max [size_w * FT_TO_M self, Finite 0.05];
                   dim_z = py_max [size_h * FT_TO_M self, Finite 0.05]
               in Inr (Some \<lparr>part = idx, pose_x = gz_x, pose_y = gz_y, pose_z = gz_z,
                              size_x = dim_x, size_y = dim_y, size_z = dim_z\<rparr>)))))"
| "emit_part pf self idx _ = Inr None"

fun emit_parts ::
  "(string \<Rightarrow> pyfloat option) \<Rightarrow> converter \<Rightarrow> (nat \<times> bounds) list \<Rightarrow> error + collision list" where
  "emit_parts pf self [] = Inr []"
| "emit_parts pf self ((idx, bounds) # rest) =
     sum_bind (emit_part pf self idx bounds) (\<lambda>r.
     sum_bind (emit_parts pf self rest) (\<lambda>rs.
       Inr (case r of None \<Rightarrow> rs | Some c \<Rightarrow> c # rs)))"

text \<open>
  The result: the diagnostics, and an exception (\<open>Inl\<close>), the empty string returned
  after the warning (\<open>Inr None\<close>), or the blocks appended to the header, in order
  (\<open>Inr (Some cs)\<close>).
\<close>

definition generate_fuselage_collisions ::
  "(string \<Rightarrow> pyfloat option) \<Rightarrow> converter \<Rightarrow> diag list \<times> (error + collision list option)" where
  "generate_fuselage_collisions pf self =
     (case scan pf self of (parts_bounds, count_points, diags) \<Rightarrow>
        if parts_bounds = [] then (diags @ [Warn_no_points (length (data self))], Inr None)
        else (diags @ [Info_points count_points (length parts_bounds)],
              sum_bind (emit_parts pf self parts_bounds) (\<lambda>cs. Inr (Some cs))))"

subsection \<open>Views used to state the properties\<close>

text \<open>
  The points the scan reads off a store, in the order of its keys: the keys that pass
  the filter and steps 1 to 3, as (part index, axis, value).
\<close>

definition points :: "(string \<Rightarrow> pyfloat option) \<Rightarrow> store \<Rightarrow> (nat \<times> nat \<times> pyfloat) list" where
  "points pf d =
     List.map_filter (\<lambda>(key, val).
       if contains ''_geo_xyz'' key \<and> contains ''_part/'' key then
         (case parse_point pf key val of Inr (Some p) \<Rightarrow> Some p | _ \<Rightarrow> None)
       else None) d"

text \<open>The samples of part \<open>idx\<close> on axis \<open>k\<close>.\<close>

definition samples :: "(string \<Rightarrow> pyfloat option) \<Rightarrow> converter \<Rightarrow> nat \<Rightarrow> nat \<Rightarrow> pyfloat list" where
  "samples pf self idx k =
     map (\<lambda>(i, a, v). v) (filter (\<lambda>(i, a, v). i = idx \<and> a = k) (points pf (data self)))"

text \<open>Bucket \<open>k\<close> of part \<open>idx\<close> in \<^verbatim>\<open>parts_bounds\<close>; empty where there is none.\<close>

definition bucket :: "(nat \<times> bounds) list \<Rightarrow> nat \<Rightarrow> nat \<Rightarrow> pyfloat list" where
  "bucket parts_bounds idx k =
     (case map_of parts_bounds idx of
        None \<Rightarrow> []
      | Some (b0, b1, b2) \<Rightarrow> if k = 0 then b0 else if k = 1 then b1 else if k = 2 then b2 else [])"

text \<open>
  The blocks a call of \<^verbatim>\<open>generate_fuselage_collisions\<close> hands to its caller: none when it
  raises, and none when it returns the empty string.
\<close>

definition emitted :: "diag list \<times> (error + collision list option) \<Rightarrow> collision list" where
  "emitted res = (case snd res of Inr (Some cs) \<Rightarrow> cs | _ \<Rightarrow> [])"

text \<open>
  The offset the loop reads for a part: \<^verbatim>\<open>float(self.get_value(f"_part/{idx}{name}", 0.0))\<close>
  with \<open>name\<close> one of \<^verbatim>\<open>/_part_x\<close>, \<^verbatim>\<open>/_part_y\<close>, \<^verbatim>\<open>/_part_z\<close>.
\<close>

definition offset :: "(string \<Rightarrow> pyfloat option) \<Rightarrow> converter \<Rightarrow> nat \<Rightarrow> string \<Rightarrow> error + pyfloat" where
  "offset pf self idx name =
     py_float pf (get_value self (''_part/'' @ str_nat idx @ name) (One (Num (Finite 0))))"

text \<open>The filter of the loop, on the samples of a part: both sizes below \<^verbatim>\<open>0.01\<close>.\<close>

definition degenerate :: "pyfloat list \<Rightarrow> pyfloat list \<Rightarrow> bool" where
  "degenerate b0 b1 =
     (py_max b0 - py_min b0 < Finite 0.01 \<and> py_max b1 - py_min b1 < Finite 0.01)"

text \<open>A float that is neither an infinity nor NaN, and its value.\<close>

fun isfinite :: "pyfloat \<Rightarrow> bool" where
  "isfinite (Finite x) = True"
| "isfinite a = False"

fun the_real :: "pyfloat \<Rightarrow> real" where
  "the_real (Finite x) = x"
| "the_real a = 0"

subsection \<open>Example inputs\<close>

text \<open>
  The minimal case of the specification: part 0 with the samples 0 and 10 on axis 0,
  0 and 2 on axis 1, 0 and 1 on axis 2, and no offset key.
\<close>

definition box_store :: store where
  "box_store =
     [(''_part/0/_geo_xyz/0,0,0'', One (Num (Finite 0))), (''_part/0/_geo_xyz/1,0,0'', One (Num (Finite 10))),
      (''_part/0/_geo_xyz/0,0,1'', One (Num (Finite 0))), (''_part/0/_geo_xyz/1,0,1'', One (Num (Finite 2))),
      (''_part/0/_geo_xyz/0,0,2'', One (Num (Finite 0))), (''_part/0/_geo_xyz/1,0,2'', One (Num (Finite 1)))]"

text \<open>A part of extent 0.001 on axes 0 and 1, and 100 on axis 2.\<close>

definition flat_store :: store where
  "flat_store =
     [(''_part/0/_geo_xyz/0,0,0'', One (Num (Finite 0))), (''_part/0/_geo_xyz/1,0,0'', One (Num (Finite 0.001))),
      (''_part/0/_geo_xyz/0,0,1'', One (Num (Finite 0))), (''_part/0/_geo_xyz/1,0,1'', One (Num (Finite 0.001))),
      (''_part/0/_geo_xyz/0,0,2'', One (Num (Finite 0))), (''_part/0/_geo_xyz/1,0,2'', One (Num (Finite 100)))]"

text \<open>A converter built from the empty text, its store replaced.\<close>

definition with_store :: "store \<Rightarrow> converter" where
  "with_store d = (init Map.empty '''')\<lparr>data := d\<rparr>"








section \<open>Properties\<close>

subsection \<open>Overflow\<close>

text \<open>Sums and products of small values do not overflow, and an overflow is never NaN.\<close>

lemma overflow_at_big: "2 ^ 1000 < overflow_at"
  by (simp add: overflow_at_def)

lemma ovf_Finite: "- (2 ^ 1000) \<le> x \<Longrightarrow> x \<le> 2 ^ 1000 \<Longrightarrow> ovf x = Finite x"
  using overflow_at_big by (simp add: ovf_def)

lemma ovf_small: "- 1000 \<le> x \<Longrightarrow> x \<le> 1000 \<Longrightarrow> ovf x = Finite x"
  by (rule ovf_Finite) simp_all


lemma ovf_less:
  "- overflow_at < y \<Longrightarrow> y < overflow_at \<Longrightarrow> ovf x < Finite y \<longleftrightarrow> x < y"
  by (auto simp: ovf_def)



subsection \<open>The coordinate transform\<close>

text \<open>
  Claim C4. For every input triple (lateral, vertical, longitudinal), \<^verbatim>\<open>convert_coords\<close>
  returns \<open>(x, y, z)\<close> with \<open>x = -(longitudinal * ratio)\<close>, \<open>y = -(lateral * ratio)\<close> and
  \<open>z = vertical * ratio\<close>, where ratio is the converter's length-unit ratio; with a ratio
  of one, the triple \<open>(1, 2, 3)\<close> is sent to \<open>(-3, -1, 2)\<close>. The products and negations are
  those of floats, so the formula covers infinite and NaN coordinates as well.
\<close>

theorem convert_coords_formula:
  "convert_coords self lateral vertical longitudinal =
     (- (longitudinal * FT_TO_M self), - (lateral * FT_TO_M self), vertical * FT_TO_M self)
   \<and> convert_coords (self\<lparr>FT_TO_M := Finite 1\<rparr>) (Finite 1) (Finite 2) (Finite 3)
       = (Finite (- 3), Finite (- 1), Finite 2)"
  by (simp add: convert_coords_def ovf_Finite)

subsection \<open>Lookup\<close>

text \<open>\<^verbatim>\<open>endswith\<close> is the suffix relation on lists.\<close>

lemma endswith_suffix: "endswith s p = suffix p s"
proof
  assume "endswith s p"
  then have "drop (length s - length p) s = p" by (simp add: endswith_def)
  then show "suffix p s" by (metis suffix_drop)
next
  assume "suffix p s"
  then obtain zs where "s = zs @ p" by (auto simp: suffix_def)
  then show "endswith s p" by (simp add: endswith_def)
qed

lemma first_endswith_None:
  "first_endswith d k = None \<longleftrightarrow> (\<forall>key \<in> fst ` set d. \<not> suffix k key)"
  by (induction d k rule: first_endswith.induct) (auto simp: endswith_suffix)

lemma first_endswith_first:
  "i < length d \<Longrightarrow> suffix k (fst (d ! i)) \<Longrightarrow> \<forall>j<i. \<not> suffix k (fst (d ! j))
   \<Longrightarrow> first_endswith d k = Some (snd (d ! i))"
proof (induction d k arbitrary: i rule: first_endswith.induct)
  case (1 key_suffix)
  then show ?case by simp
next
  case (2 key val items key_suffix)
  show ?case
  proof (cases i)
    case 0
    with 2 show ?thesis by (simp add: endswith_suffix)
  next
    case (Suc n)
    with 2(3,4) have a: "\<not> suffix key_suffix key" "n < length items"
        "suffix key_suffix (fst (items ! n))"
      using "2.prems"(1) by auto
    from 2(4) Suc have b: "\<forall>j<n. \<not> suffix key_suffix (fst (items ! j))" by auto
    from 2(1)[OF _ a(2) a(3) b] a(1) Suc show ?thesis by (simp add: endswith_suffix)
  qed
qed

lemma get_value_exact:
  "distinct (map fst (data self)) \<Longrightarrow> (k, v) \<in> set (data self) \<Longrightarrow> get_value self k d = v"
  by (simp add: get_value_def)

lemma get_value_first_suffix:
  "k \<notin> fst ` set (data self) \<Longrightarrow> i < length (data self) \<Longrightarrow> suffix k (fst (data self ! i))
   \<Longrightarrow> \<forall>j<i. \<not> suffix k (fst (data self ! j)) \<Longrightarrow> get_value self k d = snd (data self ! i)"
  by (simp add: get_value_def map_of_eq_None_iff[THEN iffD2] first_endswith_first)

lemma get_value_default:
  assumes "\<forall>key \<in> fst ` set (data self). \<not> suffix k key"
  shows "get_value self k d = d"
proof -
  from assms have "k \<notin> fst ` set (data self)" by auto
  then have "map_of (data self) k = None" by (simp add: map_of_eq_None_iff)
  moreover from assms have "first_endswith (data self) k = None"
    by (simp add: first_endswith_None)
  ultimately show ?thesis by (simp add: get_value_def)
qed

lemma get_value_single:
  "data self = [(''a/b/c'', v)] \<Longrightarrow>
     get_value self ''b/c'' d = v \<and> get_value self ''c'' d = v
     \<and> get_value self ''a/b/c'' d = v \<and> get_value self ''z'' d = d"
  by (simp add: get_value_def endswith_def)

subsection \<open>The keys of a parsed store\<close>

lemma split_ws_nonempty: "w \<in> set (split_ws s) \<Longrightarrow> w \<noteq> []"
proof (induction s rule: split_ws.induct)
  case (1 s)
  show ?case
  proof (cases "dropWhile isspace s")
    case Nil
    with 1(2) show ?thesis by (simp add: split_ws.simps[of s])
  next
    case (Cons c cs)
    with 1(2) have "w = c # takeWhile (\<lambda>d. \<not> isspace d) cs
        \<or> w \<in> set (split_ws (dropWhile (\<lambda>d. \<not> isspace d) cs))"
      by (simp add: split_ws.simps[of s])
    then show ?thesis using 1(1)[OF Cons] by auto
  qed
qed

lemma parse_line_key_nonempty:
  assumes "parse_line pf l = Some (k, v)"
  shows "k \<noteq> []"
proof -
  from assms have "3 \<le> length (split_ws (strip l))" "k = split_ws (strip l) ! 1"
    by (auto simp: parse_line_def Let_def split: if_splits)
  then have "k \<in> set (split_ws (strip l))" by simp
  then show ?thesis by (rule split_ws_nonempty)
qed

lemma keys_dict_set: "fst ` set (dict_set d k v) = insert k (fst ` set d)"
  by (induction d k v rule: dict_set.induct) auto

lemma distinct_dict_set: "distinct (map fst d) \<Longrightarrow> distinct (map fst (dict_set d k v))"
  by (induction d k v rule: dict_set.induct) (auto simp: keys_dict_set)

lemma parse_fold_keys:
  "[] \<notin> fst ` set d \<Longrightarrow>
   [] \<notin> fst ` set (fold (\<lambda>line d. case parse_line pf line of None \<Rightarrow> d
                                 | Some (key, v) \<Rightarrow> dict_set d key v) ls d)"
proof (induction ls arbitrary: d)
  case Nil
  then show ?case by simp
next
  case (Cons l ls)
  show ?case
  proof (cases "parse_line pf l")
    case None
    with Cons show ?thesis by simp
  next
    case (Some kv)
    obtain k v where kv: "kv = (k, v)" by (cases kv)
    with Some have "k \<noteq> []" by (auto dest: parse_line_key_nonempty)
    with Cons.prems have "[] \<notin> fst ` set (dict_set d k v)" by (auto simp: keys_dict_set)
    from Cons.IH[OF this] Some kv show ?thesis by simp
  qed
qed

lemma parse_acf_keys: "[] \<notin> fst ` set (parse_acf pf content)"
  unfolding parse_acf_def by (rule parse_fold_keys) simp

lemma data_init: "data (init pf content) = parse_acf pf content"
  by (simp add: init_def Let_def)

lemma get_value_empty:
  assumes "[] \<notin> fst ` set (data self)"
  shows "get_value self [] dflt = (case data self of [] \<Rightarrow> dflt | (key, val) # _ \<Rightarrow> val)"
proof -
  from assms have "map_of (data self) [] = None" by (simp add: map_of_eq_None_iff)
  then show ?thesis
    by (cases "data self") (auto simp: get_value_def endswith_def split: prod.splits)
qed

text \<open>
  Claim C10. A key of a parsed store is a token of a line, so it is never the empty
  string. Hence, on the store of every converter the constructor builds, the lookup of
  the empty suffix returns the value of the first stored key, whatever the default, and
  the default only when the store is empty.
\<close>

theorem get_value_empty_suffix:
  "get_value (init pf content) '''' dflt =
     (case data (init pf content) of [] \<Rightarrow> dflt | (key, val) # _ \<Rightarrow> val)"
  by (rule get_value_empty) (simp add: data_init parse_acf_keys)

text \<open>
  Claim C3. In a store (a dictionary: its keys are distinct), \<^verbatim>\<open>get_value\<close> returns the
  value of \<open>k\<close> when \<open>k\<close> is a stored key; otherwise the value of the first stored key, in
  insertion order, that has \<open>k\<close> as a suffix; and the default when no stored key has \<open>k\<close>
  as a suffix. So in the store that holds 5 under \<^verbatim>\<open>a/b/c\<close>, the lookups of \<^verbatim>\<open>b/c\<close>, \<^verbatim>\<open>c\<close>
  and \<^verbatim>\<open>a/b/c\<close> return 5, and the lookup of \<^verbatim>\<open>z\<close> with default 9 returns 9.
\<close>

theorem get_value_contract:
  assumes "distinct (map fst (data self))"
  shows "((k, v) \<in> set (data self) \<longrightarrow> get_value self k dflt = v)
    \<and> (k \<notin> fst ` set (data self) \<longrightarrow>
         (\<forall>i < length (data self).
            suffix k (fst (data self ! i)) \<and> (\<forall>j<i. \<not> suffix k (fst (data self ! j)))
            \<longrightarrow> get_value self k dflt = snd (data self ! i)))
    \<and> ((\<forall>key \<in> fst ` set (data self). \<not> suffix k key) \<longrightarrow> get_value self k dflt = dflt)
    \<and> (data self = [(''a/b/c'', One (Num (Finite 5)))] \<longrightarrow>
         get_value self ''b/c'' dflt = One (Num (Finite 5)) \<and> get_value self ''c'' dflt = One (Num (Finite 5))
         \<and> get_value self ''a/b/c'' dflt = One (Num (Finite 5))
         \<and> get_value self ''z'' (One (Num (Finite 9))) = One (Num (Finite 9)))"
proof (intro conjI impI allI)
  assume "(k, v) \<in> set (data self)"
  with assms show "get_value self k dflt = v" by (rule get_value_exact)
next
  fix i
  assume "k \<notin> fst ` set (data self)" "i < length (data self)"
    "suffix k (fst (data self ! i)) \<and> (\<forall>j<i. \<not> suffix k (fst (data self ! j)))"
  then show "get_value self k dflt = snd (data self ! i)"
    by (simp add: get_value_first_suffix)
next
  assume "\<forall>key \<in> fst ` set (data self). \<not> suffix k key"
  then show "get_value self k dflt = dflt" by (rule get_value_default)
next
  assume a: "data self = [(''a/b/c'', One (Num (Finite 5)))]"
  from get_value_single[OF a] show "get_value self ''b/c'' dflt = One (Num (Finite 5))" by blast
  from get_value_single[OF a] show "get_value self ''c'' dflt = One (Num (Finite 5))" by blast
  from get_value_single[OF a] show "get_value self ''a/b/c'' dflt = One (Num (Finite 5))" by blast
  from get_value_single[OF a] show "get_value self ''z'' (One (Num (Finite 9))) = One (Num (Finite 9))" by blast
qed

theorem get_value_contract_witness:
  "get_value ((init Map.empty '''')\<lparr>data := [(''a/b/c'', One (Num (Finite 5)))]\<rparr>) ''b/c'' (One (Num (Finite 0)))
     = One (Num (Finite 5))
   \<and> get_value ((init Map.empty '''')\<lparr>data := [(''a/b/c'', One (Num (Finite 5)))]\<rparr>) ''z'' (One (Num (Finite 9)))
     = One (Num (Finite 9))"
proof -
  let ?S = "(init Map.empty '''')\<lparr>data := [(''a/b/c'', One (Num (Finite 5)))]\<rparr>"
  have d: "distinct (map fst (data ?S))" by simp
  have e: "data ?S = [(''a/b/c'', One (Num (Finite 5)))]" by simp
  from get_value_contract[OF d, of "''b/c''" "One (Num (Finite 5))" "One (Num (Finite 0))"] e
  show ?thesis by blast
qed


subsection \<open>Which lines reach the store\<close>

lemma split_ws_Nil: "split_ws [] = []"
  by (simp add: split_ws.simps[of "[]"])

lemma split_ws_space: "isspace c \<Longrightarrow> split_ws (c # s) = split_ws s"
  by (simp add: split_ws.simps[of "c # s"] split_ws.simps[of s])

lemma split_ws_char:
  "\<not> isspace c \<Longrightarrow>
   split_ws (c # s) = (c # takeWhile (\<lambda>d. \<not> isspace d) s) # split_ws (dropWhile (\<lambda>d. \<not> isspace d) s)"
  by (simp add: split_ws.simps[of "c # s"])

lemmas split_ws_eval = split_ws_Nil split_ws_space split_ws_char isspace_def whitespace_def

lemma split_ws_P: "split_ws (''P '' @ rest) = ''P'' # split_ws rest"
proof -
  have a: "\<not> isspace (CHR ''P'')" "isspace (CHR '' '')"
    by (simp_all add: isspace_def whitespace_def)
  show ?thesis using a by (simp add: split_ws_char split_ws_space)
qed

lemma startswith_P: "startswith line ''P '' \<longleftrightarrow> (\<exists>rest. line = ''P '' @ rest)"
proof
  assume "startswith line ''P ''"
  then show "\<exists>rest. line = ''P '' @ rest"
    unfolding startswith_def by (metis append_take_drop_id)
next
  assume "\<exists>rest. line = ''P '' @ rest"
  then show "startswith line ''P ''" by (auto simp: startswith_def)
qed

text \<open>
  Claim C9, as the code has it. A line is assigned to the store exactly when, stripped
  of surrounding whitespace, it starts with \<^verbatim>\<open>P\<close> and a space character and at least two
  tokens follow the marker; every other line is skipped. The character after \<^verbatim>\<open>P\<close> must
  be the space itself: \<^verbatim>\<open>startswith('P ')\<close> is the test.
\<close>

theorem line_contributes:
  "parse_line pf line \<noteq> None \<longleftrightarrow>
     (\<exists>rest. strip line = ''P '' @ rest \<and> 2 \<le> length (split_ws rest))"
proof
  assume a: "parse_line pf line \<noteq> None"
  then have s: "startswith (strip line) ''P ''" and l: "3 \<le> length (split_ws (strip line))"
    by (auto simp: parse_line_def Let_def split: if_splits)
  from s obtain rest where r: "strip line = ''P '' @ rest" by (auto simp: startswith_P)
  with l have "2 \<le> length (split_ws rest)" by (simp add: split_ws_P del: append.simps)
  with r show "\<exists>rest. strip line = ''P '' @ rest \<and> 2 \<le> length (split_ws rest)" by blast
next
  assume "\<exists>rest. strip line = ''P '' @ rest \<and> 2 \<le> length (split_ws rest)"
  then obtain rest where r: "strip line = ''P '' @ rest" and l: "2 \<le> length (split_ws rest)"
    by blast
  from r l have "3 \<le> length (split_ws (strip line))" by (simp add: split_ws_P del: append.simps)
  moreover from r have "startswith (strip line) ''P ''" by (auto simp: startswith_P)
  moreover from r have "strip line \<noteq> []" by simp
  ultimately show "parse_line pf line \<noteq> None" by (simp add: parse_line_def Let_def)
qed

text \<open>
  Claim C9 as stated fails for whitespace other than the space: the line \<^verbatim>\<open>P<TAB>k 1\<close>
  begins with \<^verbatim>\<open>P\<close> followed by whitespace and has two tokens after the marker, and it is
  skipped.
\<close>

theorem tab_line_skipped:
  "strip (CHR ''P'' # CHR 0x09 # ''k 1'') = CHR ''P'' # CHR 0x09 # ''k 1''
   \<and> isspace (CHR 0x09) \<and> 2 \<le> length (split_ws ''k 1'')
   \<and> parse_line Map.empty (CHR ''P'' # CHR 0x09 # ''k 1'') = None"
  by (simp add: strip_def split_ws_eval parse_line_def startswith_def)

text \<open>The characterisation at two lines: one stored, one with a single token after the marker.\<close>

theorem line_contributes_witness:
  "parse_line Map.empty ''  P k 1'' \<noteq> None \<and> parse_line Map.empty ''P k'' = None"
proof -
  have a: "strip ''  P k 1'' = ''P '' @ ''k 1''"
    by (simp add: strip_def isspace_def whitespace_def)
  have b: "strip ''P k'' = ''P '' @ ''k''"
    by (simp add: strip_def isspace_def whitespace_def)
  have c: "split_ws ''k'' = [''k'']" and d: "split_ws ''k 1'' = [''k'', ''1'']"
    by (simp_all add: split_ws_eval)
  from a d have "\<exists>rest. strip ''  P k 1'' = ''P '' @ rest \<and> 2 \<le> length (split_ws rest)"
    by (intro exI[of _ "''k 1''"]) simp
  then have "parse_line Map.empty ''  P k 1'' \<noteq> None"
    using line_contributes[of Map.empty "''  P k 1''"] by blast
  moreover from b c have "\<not> (\<exists>rest. strip ''P k'' = ''P '' @ rest \<and> 2 \<le> length (split_ws rest))"
    by simp
  then have "parse_line Map.empty ''P k'' = None"
    using line_contributes[of Map.empty "''P k''"] by blast
  ultimately show ?thesis by simp
qed


subsection \<open>Minimum and maximum\<close>

lemma fold_min_finite:
  "list_all isfinite xs \<Longrightarrow>
   fold (\<lambda>x best. if x < best then x else best) xs (Finite m)
     = Finite (fold min (map the_real xs) m)"
proof (induction xs arbitrary: m)
  case Nil
  then show ?case by simp
next
  case (Cons x xs)
  then obtain r where r: "x = Finite r" by (cases x) auto
  have "(if Finite r < Finite m then Finite r else Finite m) = Finite (min r m)"
    by (simp add: min_def)
  with Cons r show ?case by simp
qed

lemma fold_max_finite:
  "list_all isfinite xs \<Longrightarrow>
   fold (\<lambda>x best. if best < x then x else best) xs (Finite m)
     = Finite (fold max (map the_real xs) m)"
proof (induction xs arbitrary: m)
  case Nil
  then show ?case by simp
next
  case (Cons x xs)
  then obtain r where r: "x = Finite r" by (cases x) auto
  have "(if Finite m < Finite r then Finite r else Finite m) = Finite (max r m)"
    by (simp add: max_def)
  with Cons r show ?case by simp
qed

text \<open>
  On finite samples, \<^verbatim>\<open>min\<close> and \<^verbatim>\<open>max\<close> are the least and the greatest sample, whatever
  the order.
\<close>

lemma py_min_finite:
  assumes "list_all isfinite xs" "xs \<noteq> []"
  shows "py_min xs = Finite (Min (set (map the_real xs)))"
proof -
  from assms obtain r ys where xs: "xs = Finite r # ys" and ys: "list_all isfinite ys"
    by (cases xs; cases "hd xs") auto
  have "Min (set (map the_real xs)) = fold min (map the_real ys) r"
    unfolding xs using Min.set_eq_fold[of r "map the_real ys"] by simp
  with ys show ?thesis by (simp add: py_min_def xs fold_min_finite)
qed

lemma py_max_finite:
  assumes "list_all isfinite xs" "xs \<noteq> []"
  shows "py_max xs = Finite (Max (set (map the_real xs)))"
proof -
  from assms obtain r ys where xs: "xs = Finite r # ys" and ys: "list_all isfinite ys"
    by (cases xs; cases "hd xs") auto
  have "Max (set (map the_real xs)) = fold max (map the_real ys) r"
    unfolding xs using Max.set_eq_fold[of r "map the_real ys"] by simp
  with ys show ?thesis by (simp add: py_max_def xs fold_max_finite)
qed

text \<open>\<^verbatim>\<open>max(a, 0.05)\<close>: NaN when \<open>a\<close> is NaN, and at least \<^verbatim>\<open>0.05\<close> otherwise.\<close>

lemma py_max_pair: "py_max [a, b] = (if a < b then b else a)"
  by (simp add: py_max_def)

lemma floor_NaN: "py_max [NaN, b] = NaN"
  by (simp add: py_max_pair)


lemma floor_finite:
  "py_max [Finite x, Finite 0.05] = Finite (max x 0.05)"
  by (simp add: py_max_pair max_def)

subsection \<open>The loop over the parts\<close>

lemma sum_bind_Inr_iff: "sum_bind m f = Inr y \<longleftrightarrow> (\<exists>x. m = Inr x \<and> f x = Inr y)"
  by (cases m) (simp_all add: sum_bind_def)

lemma sum_bind_Inr [simp]: "sum_bind (Inr x) f = f x"
  by (simp add: sum_bind_def)

lemma sum_bind_Inl [simp]: "sum_bind (Inl e) f = Inl e"
  by (simp add: sum_bind_def)

lemma emit_part_missing:
  "b0 = [] \<or> b1 = [] \<or> b2 = [] \<Longrightarrow> emit_part pf self idx (b0, b1, b2) = Inr None"
  by (cases b0; cases b1; cases b2) simp_all

lemma emit_part_full:
  assumes "b0 \<noteq> []" "b1 \<noteq> []" "b2 \<noteq> []"
  shows "emit_part pf self idx (b0, b1, b2) =
    (if py_max b0 - py_min b0 < Finite 0.01 \<and> py_max b1 - py_min b1 < Finite 0.01 then Inr None
     else
       sum_bind (py_float pf (get_value self (''_part/'' @ str_nat idx @ ''/_part_x'') (One (Num (Finite 0))))) (\<lambda>off_x.
       sum_bind (py_float pf (get_value self (''_part/'' @ str_nat idx @ ''/_part_y'') (One (Num (Finite 0))))) (\<lambda>off_y.
       sum_bind (py_float pf (get_value self (''_part/'' @ str_nat idx @ ''/_part_z'') (One (Num (Finite 0))))) (\<lambda>off_z.
         Inr (Some \<lparr>part = idx,
           pose_x = - ((off_z + half (py_min b0 + py_max b0)) * FT_TO_M self),
           pose_y = - ((off_x + half (py_min b1 + py_max b1)) * FT_TO_M self),
           pose_z = (off_y + half (py_min b2 + py_max b2)) * FT_TO_M self,
           size_x = py_max [(py_max b0 - py_min b0) * FT_TO_M self, Finite 0.05],
           size_y = py_max [(py_max b1 - py_min b1) * FT_TO_M self, Finite 0.05],
           size_z = py_max [(py_max b2 - py_min b2) * FT_TO_M self, Finite 0.05]\<rparr>)))))"
proof -
  from assms obtain l ls w ws h hs where b: "b0 = l # ls" "b1 = w # ws" "b2 = h # hs"
    by (cases b0; cases b1; cases b2) auto
  show ?thesis
    unfolding b emit_part.simps Let_def by (rule refl)
qed

lemma emit_part_part: "emit_part pf self idx b = Inr (Some c) \<Longrightarrow> part c = idx"
proof -
  assume a: "emit_part pf self idx b = Inr (Some c)"
  obtain b0 b1 b2 where b: "b = (b0, b1, b2)" by (cases b)
  show ?thesis
  proof (cases "b0 = [] \<or> b1 = [] \<or> b2 = []")
    case True
    with a b show ?thesis by (simp add: emit_part_missing)
  next
    case False
    then have "b0 \<noteq> []" "b1 \<noteq> []" "b2 \<noteq> []" by auto
    from a[unfolded b emit_part_full[OF this]] show ?thesis
      by (auto simp: sum_bind_Inr_iff split: if_splits)
  qed
qed

lemma emit_parts_set:
  "emit_parts pf self ps = Inr cs \<Longrightarrow>
   set cs = {c. \<exists>(idx, b) \<in> set ps. emit_part pf self idx b = Inr (Some c)}"
proof (induction ps arbitrary: cs)
  case Nil
  then show ?case by simp
next
  case (Cons p ps)
  obtain idx b where p: "p = (idx, b)" by (cases p)
  from Cons.prems p obtain r rs where r: "emit_part pf self idx b = Inr r"
    and rs: "emit_parts pf self ps = Inr rs"
    and cs: "cs = (case r of None \<Rightarrow> rs | Some c \<Rightarrow> c # rs)"
    by (auto simp: sum_bind_Inr_iff)
  from Cons.IH[OF rs] r cs p show ?case
    by (cases r) auto
qed



subsection \<open>The scan\<close>

lemma map_of_dict_set: "map_of (dict_set d k v) = (map_of d)(k \<mapsto> v)"
  by (induction d k v rule: dict_set.induct) auto

lemma keys_store_point:
  "fst ` set (fst (store_point pb (i, a, v))) = insert i (fst ` set pb)"
proof (cases "map_of pb i")
  case None
  then show ?thesis
    by (auto simp: store_point_def Let_def map_of_dict_set keys_dict_set)
next
  case (Some b)
  then have "i \<in> fst ` set pb" by (metis map_of_eq_None_iff option.distinct(1))
  with Some show ?thesis
    by (cases b) (auto simp: store_point_def Let_def map_of_dict_set keys_dict_set)
qed

lemma distinct_store_point:
  "distinct (map fst pb) \<Longrightarrow> distinct (map fst (fst (store_point pb p)))"
  by (cases p) (auto simp: store_point_def Let_def map_of_dict_set distinct_dict_set
      split: option.splits prod.splits)

lemma bucket_store_point:
  "bucket (fst (store_point pb (i, a, v))) idx k =
     bucket pb idx k @ (if i = idx \<and> a = k \<and> k < 3 then [v] else [])"
proof (cases "map_of pb i")
  case None
  then show ?thesis
    by (auto simp: store_point_def Let_def map_of_dict_set bucket_def)
next
  case (Some b)
  then show ?thesis
    by (cases b) (auto simp: store_point_def Let_def map_of_dict_set bucket_def)
qed

lemma store_point_error:
  "snd (store_point pb (i, a, v)) = (if a < 3 then None else Some KeyError)"
proof (cases "map_of pb i")
  case None
  then show ?thesis
    by (auto simp: store_point_def Let_def map_of_dict_set)
next
  case (Some b)
  then show ?thesis
    by (cases b) (auto simp: store_point_def Let_def map_of_dict_set)
qed


lemma points_Cons: "points pf (item # d) = points pf [item] @ points pf d"
  by (simp add: points_def List.map_filter_def)

lemma points_append: "points pf (d @ d') = points pf d @ points pf d'"
  by (simp add: points_def List.map_filter_def)

lemma points_single:
  "points pf [(key, val)] =
     (if contains ''_geo_xyz'' key \<and> contains ''_part/'' key then
        (case parse_point pf key val of Inr (Some p) \<Rightarrow> [p] | _ \<Rightarrow> [])
      else [])"
  by (simp add: points_def List.map_filter_def split: sum.splits option.splits)

lemma scan_item_bounds:
  "fst (scan_item pf item st) = fold (\<lambda>p pb. fst (store_point pb p)) (points pf [item]) (fst st)"
proof -
  obtain key val where i: "item = (key, val)" by (cases item)
  obtain pb n ds where s: "st = (pb, n, ds)" by (cases st)
  show ?thesis unfolding i s
    by (simp add: scan_item_def points_single split: sum.splits option.splits prod.splits)
qed

lemma scan_item_count:
  "fst (snd (scan_item pf item st)) =
     fst (snd st) + length (filter (\<lambda>(i, a, v). a < 3) (points pf [item]))"
proof -
  obtain key val where i: "item = (key, val)" by (cases item)
  obtain pb n ds where s: "st = (pb, n, ds)" by (cases st)
  show ?thesis
  proof (cases "points pf [(key, val)]")
    case Nil
    then show ?thesis unfolding i s
      by (auto simp: scan_item_def points_single split: sum.splits option.splits if_splits)
  next
    case (Cons p ps)
    obtain j a v where p: "p = (j, a, v)" by (cases p)
    from Cons have q: "contains ''_geo_xyz'' key \<and> contains ''_part/'' key"
      and pp: "parse_point pf key val = Inr (Some p)" and ps: "ps = []"
      by (auto simp: points_single split: sum.splits option.splits if_splits)
    obtain q e where sp: "store_point pb (j, a, v) = (q, e)" by (cases "store_point pb (j, a, v)")
    with store_point_error[of pb j a v] have e: "e = (if a < 3 then None else Some KeyError)"
      by simp
    from q pp sp e Cons ps p show ?thesis unfolding i s
      by (simp add: scan_item_def)
  qed
qed

lemma scan_fold_bounds:
  "fst (fold (scan_item pf) d st) = fold (\<lambda>p pb. fst (store_point pb p)) (points pf d) (fst st)"
proof (induction d arbitrary: st)
  case Nil
  then show ?case by (simp add: points_def List.map_filter_def)
next
  case (Cons item d)
  have "fst (fold (scan_item pf) (item # d) st) = fst (fold (scan_item pf) d (scan_item pf item st))"
    by simp
  also have "\<dots> = fold (\<lambda>p pb. fst (store_point pb p)) (points pf d) (fst (scan_item pf item st))"
    by (rule Cons.IH)
  also have "\<dots> = fold (\<lambda>p pb. fst (store_point pb p)) (points pf (item # d)) (fst st)"
    by (simp add: scan_item_bounds points_Cons[of pf item d])
  finally show ?case .
qed

lemma scan_fold_count:
  "fst (snd (fold (scan_item pf) d st)) =
     fst (snd st) + length (filter (\<lambda>(i, a, v). a < 3) (points pf d))"
proof (induction d arbitrary: st)
  case Nil
  then show ?case by (simp add: points_def List.map_filter_def)
next
  case (Cons item d)
  show ?case
    by (simp add: Cons.IH scan_item_count points_Cons[of pf item d])
qed

lemma fold_store_bucket:
  "bucket (fold (\<lambda>p pb. fst (store_point pb p)) ps pb) idx k =
     bucket pb idx k @ (if k < 3 then map (\<lambda>(i, a, v). v) (filter (\<lambda>(i, a, v). i = idx \<and> a = k) ps) else [])"
proof (induction ps arbitrary: pb)
  case Nil
  then show ?case by simp
next
  case (Cons p ps)
  obtain i a v where p: "p = (i, a, v)" by (cases p)
  show ?case by (simp add: Cons.IH p bucket_store_point)
qed

lemma fold_store_keys:
  "fst ` set (fold (\<lambda>p pb. fst (store_point pb p)) ps pb) = fst ` set pb \<union> fst ` set ps"
proof (induction ps arbitrary: pb)
  case Nil
  then show ?case by simp
next
  case (Cons p ps)
  obtain i a v where p: "p = (i, a, v)" by (cases p)
  show ?case by (simp add: Cons.IH p keys_store_point)
qed

lemma fold_store_distinct:
  "distinct (map fst pb) \<Longrightarrow> distinct (map fst (fold (\<lambda>p pb. fst (store_point pb p)) ps pb))"
  by (induction ps arbitrary: pb) (simp_all add: distinct_store_point)

lemma scan_keys: "fst ` set (fst (scan pf self)) = fst ` set (points pf (data self))"
  by (simp add: scan_def scan_fold_bounds fold_store_keys)

lemma scan_distinct: "distinct (map fst (fst (scan pf self)))"
  by (simp add: scan_def scan_fold_bounds fold_store_distinct)

lemma scan_bucket:
  assumes "k < 3"
  shows "bucket (fst (scan pf self)) idx k = samples pf self idx k"
proof -
  have "bucket [] idx k = []" by (simp add: bucket_def)
  with assms show ?thesis
    by (simp add: scan_def scan_fold_bounds fold_store_bucket samples_def)
qed

lemma scan_count:
  "fst (snd (scan pf self)) = length (filter (\<lambda>(i, a, v). a < 3) (points pf (data self)))"
  by (simp add: scan_def scan_fold_count)

lemma scan_entry:
  "(idx, b) \<in> set (fst (scan pf self)) \<longleftrightarrow>
     idx \<in> fst ` set (points pf (data self))
     \<and> b = (samples pf self idx 0, samples pf self idx 1, samples pf self idx 2)"
proof
  assume a: "(idx, b) \<in> set (fst (scan pf self))"
  then have m: "map_of (fst (scan pf self)) idx = Some b"
    using scan_distinct by simp
  obtain b0 b1 b2 where b: "b = (b0, b1, b2)" by (cases b)
  from m b have "bucket (fst (scan pf self)) idx 0 = b0" "bucket (fst (scan pf self)) idx 1 = b1"
    "bucket (fst (scan pf self)) idx 2 = b2" by (simp_all add: bucket_def)
  then have "b = (samples pf self idx 0, samples pf self idx 1, samples pf self idx 2)"
    using b by (simp add: scan_bucket)
  moreover from a have "idx \<in> fst ` set (points pf (data self))"
    unfolding scan_keys[symmetric] by force
  ultimately show "idx \<in> fst ` set (points pf (data self))
     \<and> b = (samples pf self idx 0, samples pf self idx 1, samples pf self idx 2)" by simp
next
  assume a: "idx \<in> fst ` set (points pf (data self))
     \<and> b = (samples pf self idx 0, samples pf self idx 1, samples pf self idx 2)"
  then have "idx \<in> fst ` set (fst (scan pf self))" by (simp add: scan_keys)
  then obtain b' where b': "(idx, b') \<in> set (fst (scan pf self))" by auto
  then have m: "map_of (fst (scan pf self)) idx = Some b'"
    using scan_distinct by simp
  obtain b0 b1 b2 where b: "b' = (b0, b1, b2)" by (cases b')
  from m b have "bucket (fst (scan pf self)) idx 0 = b0" "bucket (fst (scan pf self)) idx 1 = b1"
    "bucket (fst (scan pf self)) idx 2 = b2" by (simp_all add: bucket_def)
  then have "b' = (samples pf self idx 0, samples pf self idx 1, samples pf self idx 2)"
    using b by (simp add: scan_bucket)
  with a b' show "(idx, b) \<in> set (fst (scan pf self))" by simp
qed


subsection \<open>The records of a call\<close>

lemma emit_part_offsets:
  assumes "b0 \<noteq> []" "b1 \<noteq> []" "b2 \<noteq> []"
  shows "emit_part pf self idx (b0, b1, b2) =
    (if degenerate b0 b1 then Inr None
     else
       sum_bind (offset pf self idx ''/_part_x'') (\<lambda>off_x.
       sum_bind (offset pf self idx ''/_part_y'') (\<lambda>off_y.
       sum_bind (offset pf self idx ''/_part_z'') (\<lambda>off_z.
         Inr (Some \<lparr>part = idx,
           pose_x = - ((off_z + half (py_min b0 + py_max b0)) * FT_TO_M self),
           pose_y = - ((off_x + half (py_min b1 + py_max b1)) * FT_TO_M self),
           pose_z = (off_y + half (py_min b2 + py_max b2)) * FT_TO_M self,
           size_x = py_max [(py_max b0 - py_min b0) * FT_TO_M self, Finite 0.05],
           size_y = py_max [(py_max b1 - py_min b1) * FT_TO_M self, Finite 0.05],
           size_z = py_max [(py_max b2 - py_min b2) * FT_TO_M self, Finite 0.05]\<rparr>)))))"
  unfolding emit_part_full[OF assms] offset_def degenerate_def by (rule refl)

lemma emit_part_Some:
  assumes "emit_part pf self idx (b0, b1, b2) = Inr (Some c)"
  shows "b0 \<noteq> [] \<and> b1 \<noteq> [] \<and> b2 \<noteq> [] \<and> \<not> degenerate b0 b1
    \<and> (\<exists>off_x off_y off_z.
          offset pf self idx ''/_part_x'' = Inr off_x
        \<and> offset pf self idx ''/_part_y'' = Inr off_y
        \<and> offset pf self idx ''/_part_z'' = Inr off_z
        \<and> c = \<lparr>part = idx,
           pose_x = - ((off_z + half (py_min b0 + py_max b0)) * FT_TO_M self),
           pose_y = - ((off_x + half (py_min b1 + py_max b1)) * FT_TO_M self),
           pose_z = (off_y + half (py_min b2 + py_max b2)) * FT_TO_M self,
           size_x = py_max [(py_max b0 - py_min b0) * FT_TO_M self, Finite 0.05],
           size_y = py_max [(py_max b1 - py_min b1) * FT_TO_M self, Finite 0.05],
           size_z = py_max [(py_max b2 - py_min b2) * FT_TO_M self, Finite 0.05]\<rparr>)"
proof -
  have ne: "b0 \<noteq> []" "b1 \<noteq> []" "b2 \<noteq> []"
    using assms emit_part_missing[of b0 b1 b2 pf self idx] by auto
  from assms[unfolded emit_part_offsets[OF ne]] have nd: "\<not> degenerate b0 b1"
    by (auto split: if_splits)
  with assms[unfolded emit_part_offsets[OF ne]] ne show ?thesis
    by (auto simp: sum_bind_Inr_iff)
qed

lemma gen_emitted:
  "emitted (generate_fuselage_collisions pf self) =
     (case emit_parts pf self (fst (scan pf self)) of Inl e \<Rightarrow> [] | Inr cs \<Rightarrow> cs)"
proof -
  obtain pb n ds where s: "scan pf self = (pb, n, ds)" by (cases "scan pf self")
  show ?thesis
    by (cases "emit_parts pf self pb")
       (auto simp: generate_fuselage_collisions_def emitted_def s)
qed

lemma emitted_record:
  assumes "c \<in> set (emitted (generate_fuselage_collisions pf self))"
  shows "part c \<in> fst ` set (points pf (data self))
    \<and> emit_part pf self (part c)
        (samples pf self (part c) 0, samples pf self (part c) 1, samples pf self (part c) 2)
      = Inr (Some c)"
proof -
  from assms obtain cs where cs: "emit_parts pf self (fst (scan pf self)) = Inr cs"
    and c: "c \<in> set cs"
    by (cases "emit_parts pf self (fst (scan pf self))") (auto simp: gen_emitted)
  from emit_parts_set[OF cs] c obtain idx b where ib: "(idx, b) \<in> set (fst (scan pf self))"
    and e: "emit_part pf self idx b = Inr (Some c)" by auto
  from e have "part c = idx" by (rule emit_part_part)
  with ib e show ?thesis by (simp add: scan_entry)
qed

lemma emitted_complete:
  assumes "\<forall>e. snd (generate_fuselage_collisions pf self) \<noteq> Inl e"
    and "idx \<in> fst ` set (points pf (data self))"
    and "emit_part pf self idx
        (samples pf self idx 0, samples pf self idx 1, samples pf self idx 2) = Inr (Some c)"
  shows "c \<in> set (emitted (generate_fuselage_collisions pf self))"
proof -
  obtain pb n ds where s: "scan pf self = (pb, n, ds)" by (cases "scan pf self")
  from assms(2) have ne: "pb \<noteq> []" using scan_keys[of pf self] s by auto
  with assms(1) s obtain cs where cs: "emit_parts pf self pb = Inr cs"
    by (cases "emit_parts pf self pb") (auto simp: generate_fuselage_collisions_def)
  from assms(2,3) have "(idx, samples pf self idx 0, samples pf self idx 1, samples pf self idx 2)
      \<in> set (fst (scan pf self))" by (simp add: scan_entry)
  with emit_parts_set[of pf self pb cs] cs s assms(3) have "c \<in> set cs" by auto
  with cs s show ?thesis by (simp add: gen_emitted)
qed




subsection \<open>The example inputs, evaluated\<close>

lemma str_nat_0: "str_nat 0 = ''0''"
  by (simp add: str_nat.simps[of 0] digits_def)

lemmas key_eval = startswith_def parse_point_def list_index_def
        isdigit_def py_int_def digit_val_def digits_def superscripts_def Let_def

lemma data_with_store: "data (with_store d) = d"
  by (simp add: with_store_def)

lemma FT_TO_M_init: "FT_TO_M (init pf content) = Finite 0.3048"
  by (simp add: init_def Let_def)

lemma FT_TO_M_with_store: "FT_TO_M (with_store d) = Finite 0.3048"
  by (simp add: with_store_def FT_TO_M_init)

lemma grid_points:
  "points pf
     [(''_part/0/_geo_xyz/0,0,0'', One (Num a0)), (''_part/0/_geo_xyz/1,0,0'', One (Num a1)),
      (''_part/0/_geo_xyz/0,0,1'', One (Num b0)), (''_part/0/_geo_xyz/1,0,1'', One (Num b1)),
      (''_part/0/_geo_xyz/0,0,2'', One (Num c0)), (''_part/0/_geo_xyz/1,0,2'', One (Num c1))]
   = [(0, 0, a0), (0, 0, a1), (0, 1, b0), (0, 1, b1), (0, 2, c0), (0, 2, c1)]"
  by (simp add: points_def List.map_filter_def key_eval)

lemma box_points:
  "points pf box_store =
     [(0, 0, Finite 0), (0, 0, Finite 10), (0, 1, Finite 0), (0, 1, Finite 2),
      (0, 2, Finite 0), (0, 2, Finite 1)]"
  unfolding box_store_def by (rule grid_points)

lemma box_samples:
  assumes "data self = box_store"
  shows "samples pf self 0 0 = [Finite 0, Finite 10]" "samples pf self 0 1 = [Finite 0, Finite 2]"
    "samples pf self 0 2 = [Finite 0, Finite 1]"
  by (simp_all add: samples_def assms box_points)

lemma box_offsets:
  assumes "data self = box_store"
  shows "offset pf self 0 ''/_part_x'' = Inr (Finite 0)" "offset pf self 0 ''/_part_y'' = Inr (Finite 0)"
    "offset pf self 0 ''/_part_z'' = Inr (Finite 0)"
  by (simp_all add: assms box_store_def offset_def get_value_def endswith_def str_nat_0)

lemma box_scan:
  assumes "data self = box_store"
  shows "scan pf self =
    ([(0, [Finite 0, Finite 10], [Finite 0, Finite 2], [Finite 0, Finite 1])], 6, [])"
  by (simp add: assms box_store_def scan_def scan_item_def store_point_def key_eval)

lemma box_run:
  assumes "data self = box_store"
  shows "generate_fuselage_collisions pf self =
    ([Info_points 6 1],
     Inr (Some [\<lparr>part = 0,
                 pose_x = - (Finite 5 * FT_TO_M self), pose_y = - (Finite 1 * FT_TO_M self),
                 pose_z = Finite 0.5 * FT_TO_M self,
                 size_x = py_max [Finite 10 * FT_TO_M self, Finite 0.05],
                 size_y = py_max [Finite 2 * FT_TO_M self, Finite 0.05],
                 size_z = py_max [Finite 1 * FT_TO_M self, Finite 0.05]\<rparr>]))"
proof -
  have ne: "[Finite 0, Finite 10] \<noteq> []" "[Finite 0, Finite 2] \<noteq> []"
    "[Finite 0, Finite 1] \<noteq> []" by simp_all
  have m: "py_min [Finite 0, Finite 10] = Finite 0" "py_max [Finite 0, Finite 10] = Finite 10"
    "py_min [Finite 0, Finite 2] = Finite 0" "py_max [Finite 0, Finite 2] = Finite 2"
    "py_min [Finite 0, Finite 1] = Finite 0" "py_max [Finite 0, Finite 1] = Finite 1"
    by (simp_all add: py_min_def py_max_def)
  have "emit_part pf self 0 ([Finite 0, Finite 10], [Finite 0, Finite 2], [Finite 0, Finite 1]) =
     Inr (Some \<lparr>part = 0,
                 pose_x = - (Finite 5 * FT_TO_M self), pose_y = - (Finite 1 * FT_TO_M self),
                 pose_z = Finite 0.5 * FT_TO_M self,
                 size_x = py_max [Finite 10 * FT_TO_M self, Finite 0.05],
                 size_y = py_max [Finite 2 * FT_TO_M self, Finite 0.05],
                 size_z = py_max [Finite 1 * FT_TO_M self, Finite 0.05]\<rparr>)"
    unfolding emit_part_offsets[OF ne] degenerate_def m box_offsets[OF assms]
    by (simp add: minus_pyfloat_def ovf_small)
  then show ?thesis
    by (simp add: generate_fuselage_collisions_def box_scan[OF assms] del: emit_part.simps)
qed

lemma flat_points:
  "points pf flat_store =
     [(0, 0, Finite 0), (0, 0, Finite 0.001), (0, 1, Finite 0), (0, 1, Finite 0.001),
      (0, 2, Finite 0), (0, 2, Finite 100)]"
  unfolding flat_store_def by (rule grid_points)

lemma flat_samples:
  assumes "data self = flat_store"
  shows "samples pf self 0 0 = [Finite 0, Finite 0.001]"
    "samples pf self 0 1 = [Finite 0, Finite 0.001]"
    "samples pf self 0 2 = [Finite 0, Finite 100]"
  unfolding samples_def assms flat_points by simp_all


lemma samples_part:
  assumes "samples pf self idx k \<noteq> []"
  shows "idx \<in> fst ` set (points pf (data self))"
proof -
  from assms obtain p where "p \<in> set (points pf (data self))" "fst p = idx"
    by (auto simp: samples_def filter_empty_conv)
  then show ?thesis by auto
qed

lemma emit_parts_each:
  "emit_parts pf self ps = Inr cs \<Longrightarrow> (idx, b) \<in> set ps \<Longrightarrow> \<exists>r. emit_part pf self idx b = Inr r"
proof (induction ps arbitrary: cs)
  case Nil
  then show ?case by simp
next
  case (Cons p ps)
  obtain i b' where p: "p = (i, b')" by (cases p)
  from Cons.prems(1) p obtain r rs where r: "emit_part pf self i b' = Inr r"
    and rs: "emit_parts pf self ps = Inr rs"
    by (auto simp: sum_bind_Inr_iff)
  from Cons.prems(2) p r Cons.IH[OF rs] show ?case by auto
qed

subsection \<open>Aggregation\<close>




text \<open>
  On finite samples the size the loop computes is the greatest sample minus the least,
  and the centre their half sum.
\<close>

lemma extent_finite:
  assumes "list_all isfinite b" "b \<noteq> []"
  shows "py_max b - py_min b
    = Finite (Max (set (map the_real b))) - Finite (Min (set (map the_real b)))"
  by (simp only: py_max_finite[OF assms] py_min_finite[OF assms])




text \<open>On finite samples, a size is below \<^verbatim>\<open>0.01\<close> exactly when the real difference is.\<close>

lemma extent_below:
  "Finite x - Finite y < Finite 0.01 \<longleftrightarrow> x - y < 0.01"
proof -
  have "- overflow_at < 0.01" "(0.01::real) < overflow_at"
    using overflow_at_big by simp_all
  then show ?thesis by (simp add: minus_pyfloat_def ovf_less)
qed


lemma box_emitted:
  "emitted (generate_fuselage_collisions pf (with_store box_store)) =
     [\<lparr>part = 0, pose_x = Finite (- (5 * 0.3048)), pose_y = Finite (- (1 * 0.3048)),
       pose_z = Finite (0.5 * 0.3048),
       size_x = Finite (10 * 0.3048), size_y = Finite (2 * 0.3048),
       size_z = Finite (1 * 0.3048)\<rparr>]"
  by (simp add: box_run[OF data_with_store] emitted_def FT_TO_M_with_store py_max_pair ovf_small)
















text \<open>
  Claim C5. The position the loop over the parts computes inline is \<^verbatim>\<open>convert_coords\<close> of
  the composed triple: for every part the loop emits (first conjunct: whatever its index
  and buckets) and for every block of a call (second conjunct), the position is
  \<^verbatim>\<open>convert_coords\<close> applied to lateral offset plus centre, vertical offset plus centre,
  longitudinal offset plus centre, the centre of a bucket being the half sum of its
  \<^verbatim>\<open>min\<close> and \<^verbatim>\<open>max\<close> (on finite samples: of its least and greatest sample,
  \<open>centre_finite\<close>). Infinite and NaN values are covered. The landing gear, the other
  place that turns a source
  position into a target one, calls \<^verbatim>\<open>convert_coords\<close> itself.
\<close>

theorem transform_uniformity:
  "(emit_part pf self idx (b0, b1, b2) = Inr (Some c) \<longrightarrow>
      (\<exists>off_x off_y off_z.
          offset pf self idx ''/_part_x'' = Inr off_x
        \<and> offset pf self idx ''/_part_y'' = Inr off_y
        \<and> offset pf self idx ''/_part_z'' = Inr off_z
        \<and> (pose_x c, pose_y c, pose_z c) =
            convert_coords self (off_x + half (py_min b1 + py_max b1))
                                (off_y + half (py_min b2 + py_max b2))
                                (off_z + half (py_min b0 + py_max b0))))
   \<and> (\<forall>c \<in> set (emitted (generate_fuselage_collisions pf self)).
        \<exists>off_x off_y off_z.
          offset pf self (part c) ''/_part_x'' = Inr off_x
        \<and> offset pf self (part c) ''/_part_y'' = Inr off_y
        \<and> offset pf self (part c) ''/_part_z'' = Inr off_z
        \<and> (pose_x c, pose_y c, pose_z c) =
            convert_coords self
              (off_x + half (py_min (samples pf self (part c) 1)
                         + py_max (samples pf self (part c) 1)))
              (off_y + half (py_min (samples pf self (part c) 2)
                         + py_max (samples pf self (part c) 2)))
              (off_z + half (py_min (samples pf self (part c) 0)
                         + py_max (samples pf self (part c) 0))))"
proof -
  have p: "\<exists>off_x off_y off_z.
          offset pf self i ''/_part_x'' = Inr off_x
        \<and> offset pf self i ''/_part_y'' = Inr off_y
        \<and> offset pf self i ''/_part_z'' = Inr off_z
        \<and> (pose_x r, pose_y r, pose_z r) =
            convert_coords self (off_x + half (py_min a1 + py_max a1))
                                (off_y + half (py_min a2 + py_max a2))
                                (off_z + half (py_min a0 + py_max a0))"
    if e: "emit_part pf self i (a0, a1, a2) = Inr (Some r)" for i a0 a1 a2 r
  proof -
    from emit_part_Some[OF e] obtain off_x off_y off_z where
      o: "offset pf self i ''/_part_x'' = Inr off_x"
       "offset pf self i ''/_part_y'' = Inr off_y"
       "offset pf self i ''/_part_z'' = Inr off_z"
      and r: "r = \<lparr>part = i,
           pose_x = - ((off_z + half (py_min a0 + py_max a0)) * FT_TO_M self),
           pose_y = - ((off_x + half (py_min a1 + py_max a1)) * FT_TO_M self),
           pose_z = (off_y + half (py_min a2 + py_max a2)) * FT_TO_M self,
           size_x = py_max [(py_max a0 - py_min a0) * FT_TO_M self, Finite 0.05],
           size_y = py_max [(py_max a1 - py_min a1) * FT_TO_M self, Finite 0.05],
           size_z = py_max [(py_max a2 - py_min a2) * FT_TO_M self, Finite 0.05]\<rparr>"
      by blast
    have "(pose_x r, pose_y r, pose_z r) =
            convert_coords self (off_x + half (py_min a1 + py_max a1))
                                (off_y + half (py_min a2 + py_max a2))
                                (off_z + half (py_min a0 + py_max a0))"
      by (subst r, subst r, subst r) (simp add: convert_coords_def)
    with o show ?thesis by blast
  qed
  show ?thesis
  proof (intro conjI impI ballI)
    assume "emit_part pf self idx (b0, b1, b2) = Inr (Some c)"
    then show "\<exists>off_x off_y off_z.
          offset pf self idx ''/_part_x'' = Inr off_x
        \<and> offset pf self idx ''/_part_y'' = Inr off_y
        \<and> offset pf self idx ''/_part_z'' = Inr off_z
        \<and> (pose_x c, pose_y c, pose_z c) =
            convert_coords self (off_x + half (py_min b1 + py_max b1))
                                (off_y + half (py_min b2 + py_max b2))
                                (off_z + half (py_min b0 + py_max b0))"
      by (rule p)
  next
    fix c assume "c \<in> set (emitted (generate_fuselage_collisions pf self))"
    from emitted_record[OF this] have "emit_part pf self (part c)
        (samples pf self (part c) 0, samples pf self (part c) 1, samples pf self (part c) 2)
      = Inr (Some c)" by simp
    then show "\<exists>off_x off_y off_z.
          offset pf self (part c) ''/_part_x'' = Inr off_x
        \<and> offset pf self (part c) ''/_part_y'' = Inr off_y
        \<and> offset pf self (part c) ''/_part_z'' = Inr off_z
        \<and> (pose_x c, pose_y c, pose_z c) =
            convert_coords self
              (off_x + half (py_min (samples pf self (part c) 1)
                         + py_max (samples pf self (part c) 1)))
              (off_y + half (py_min (samples pf self (part c) 2)
                         + py_max (samples pf self (part c) 2)))
              (off_z + half (py_min (samples pf self (part c) 0)
                         + py_max (samples pf self (part c) 0)))"
      by (rule p)
  qed
qed

text \<open>The block of the minimal case sits at \<^verbatim>\<open>convert_coords\<close> of the centre (1, 0.5, 5).\<close>

theorem transform_uniformity_witness:
  "(pose_x (hd (emitted (generate_fuselage_collisions Map.empty (with_store box_store)))),
    pose_y (hd (emitted (generate_fuselage_collisions Map.empty (with_store box_store)))),
    pose_z (hd (emitted (generate_fuselage_collisions Map.empty (with_store box_store)))))
   = convert_coords (with_store box_store) (Finite 1) (Finite 0.5) (Finite 5)"
proof -
  let ?c = "hd (emitted (generate_fuselage_collisions Map.empty (with_store box_store)))"
  have "emitted (generate_fuselage_collisions Map.empty (with_store box_store)) \<noteq> []"
    by (simp add: box_emitted)
  then have m: "?c \<in> set (emitted (generate_fuselage_collisions Map.empty (with_store box_store)))"
    by (rule hd_in_set)
  have pc: "part ?c = 0" by (simp add: box_emitted)
  from transform_uniformity[of Map.empty "with_store box_store"] m
  obtain off_x off_y off_z where
      o: "offset Map.empty (with_store box_store) (part ?c) ''/_part_x'' = Inr off_x"
       "offset Map.empty (with_store box_store) (part ?c) ''/_part_y'' = Inr off_y"
       "offset Map.empty (with_store box_store) (part ?c) ''/_part_z'' = Inr off_z"
    and e: "(pose_x ?c, pose_y ?c, pose_z ?c) =
            convert_coords (with_store box_store)
              (off_x + half (py_min (samples Map.empty (with_store box_store) (part ?c) 1)
                         + py_max (samples Map.empty (with_store box_store) (part ?c) 1)))
              (off_y + half (py_min (samples Map.empty (with_store box_store) (part ?c) 2)
                         + py_max (samples Map.empty (with_store box_store) (part ?c) 2)))
              (off_z + half (py_min (samples Map.empty (with_store box_store) (part ?c) 0)
                         + py_max (samples Map.empty (with_store box_store) (part ?c) 0)))"
    by blast
  from o have "off_x = Finite 0" "off_y = Finite 0" "off_z = Finite 0"
    unfolding pc using box_offsets[OF data_with_store, of Map.empty] by simp_all
  with e show ?thesis
    unfolding pc box_samples[OF data_with_store] by (simp add: py_min_def py_max_def ovf_small)
qed


lemma emit_part_not_discarded:
  assumes "b0 \<noteq> []" "b1 \<noteq> []" "b2 \<noteq> []" "\<not> degenerate b0 b1"
  shows "emit_part pf self idx (b0, b1, b2) \<noteq> Inr None"
proof
  assume a: "emit_part pf self idx (b0, b1, b2) = Inr None"
  from a[unfolded emit_part_offsets[OF assms(1-3)]] assms(4) show False
    by (auto simp: sum_bind_Inr_iff)
qed

lemma emitted_no_raise:
  assumes "\<forall>e. snd (generate_fuselage_collisions pf self) \<noteq> Inl e"
    and "idx \<in> fst ` set (points pf (data self))"
  shows "\<exists>r. emit_part pf self idx
     (samples pf self idx 0, samples pf self idx 1, samples pf self idx 2) = Inr r"
proof -
  obtain pb n ds where s: "scan pf self = (pb, n, ds)" by (cases "scan pf self")
  from assms(2) have ne: "pb \<noteq> []" using scan_keys[of pf self] s by auto
  with assms(1) s obtain cs where cs: "emit_parts pf self pb = Inr cs"
    by (cases "emit_parts pf self pb") (auto simp: generate_fuselage_collisions_def)
  from assms(2) have "(idx, samples pf self idx 0, samples pf self idx 1, samples pf self idx 2)
      \<in> set (fst (scan pf self))" by (simp add: scan_entry)
  with s have "(idx, samples pf self idx 0, samples pf self idx 1, samples pf self idx 2) \<in> set pb"
    by simp
  from emit_parts_each[OF cs this] show ?thesis .
qed

text \<open>
  Claim C7. Take a part with samples on axes 0 and 1 (longitudinal and lateral); its
  sizes are \<^verbatim>\<open>max\<close> minus \<^verbatim>\<open>min\<close> of the two buckets (on finite samples: the greatest
  sample minus the least, third conjunct). If both sizes are below \<^verbatim>\<open>0.01\<close>, the loop skips
  it and no block of the call is its own, whatever its samples on axis 2. If it has
  samples on axis 2 as well and one of the two sizes is not below \<^verbatim>\<open>0.01\<close>, the loop does
  not skip it, and it has a block whenever the call returns (the call raises when an
  offset of some part is not a number).
\<close>

theorem degenerate_rejection:
  assumes "b0 = samples pf self idx 0" "b1 = samples pf self idx 1" "b2 = samples pf self idx 2"
    and "b0 \<noteq> []" "b1 \<noteq> []"
  shows "(py_max b0 - py_min b0 < Finite 0.01 \<and> py_max b1 - py_min b1 < Finite 0.01
            \<longrightarrow> emit_part pf self idx (b0, b1, b2) = Inr None
                \<and> idx \<notin> part ` set (emitted (generate_fuselage_collisions pf self)))
    \<and> (b2 \<noteq> [] \<and> \<not> (py_max b0 - py_min b0 < Finite 0.01 \<and> py_max b1 - py_min b1 < Finite 0.01)
            \<longrightarrow> emit_part pf self idx (b0, b1, b2) \<noteq> Inr None
                \<and> ((\<forall>e. snd (generate_fuselage_collisions pf self) \<noteq> Inl e)
                    \<longrightarrow> idx \<in> part ` set (emitted (generate_fuselage_collisions pf self))))
    \<and> (list_all isfinite b0 \<and> list_all isfinite b1
            \<longrightarrow> (py_max b0 - py_min b0 < Finite 0.01 \<and> py_max b1 - py_min b1 < Finite 0.01)
                = (Max (set (map the_real b0)) - Min (set (map the_real b0)) < 0.01
                   \<and> Max (set (map the_real b1)) - Min (set (map the_real b1)) < 0.01))"
proof (intro conjI impI)
  assume d: "py_max b0 - py_min b0 < Finite 0.01 \<and> py_max b1 - py_min b1 < Finite 0.01"
  show n: "emit_part pf self idx (b0, b1, b2) = Inr None"
  proof (cases "b2 = []")
    case True
    then show ?thesis by (simp add: emit_part_missing)
  next
    case False
    with assms(4,5) d show ?thesis by (simp add: emit_part_offsets degenerate_def)
  qed
  show "idx \<notin> part ` set (emitted (generate_fuselage_collisions pf self))"
  proof
    assume "idx \<in> part ` set (emitted (generate_fuselage_collisions pf self))"
    then obtain c where c: "c \<in> set (emitted (generate_fuselage_collisions pf self))"
      and i: "part c = idx" by auto
    from emitted_record[OF c] i assms(1-3) have "emit_part pf self idx (b0, b1, b2) = Inr (Some c)"
      by simp
    with n show False by simp
  qed
next
  assume a: "b2 \<noteq> [] \<and> \<not> (py_max b0 - py_min b0 < Finite 0.01 \<and> py_max b1 - py_min b1 < Finite 0.01)"
  then have nd: "\<not> degenerate b0 b1" by (simp add: degenerate_def)
  from a assms(4,5) nd show k: "emit_part pf self idx (b0, b1, b2) \<noteq> Inr None"
    by (simp add: emit_part_not_discarded)
  assume r: "\<forall>e. snd (generate_fuselage_collisions pf self) \<noteq> Inl e"
  from assms(1,4) have p: "idx \<in> fst ` set (points pf (data self))"
    by (auto intro: samples_part)
  from emitted_no_raise[OF r p] assms(1-3) k obtain c
    where c: "emit_part pf self idx (b0, b1, b2) = Inr (Some c)" by auto
  with assms(1-3) have "c \<in> set (emitted (generate_fuselage_collisions pf self))"
    using emitted_complete[OF r p] by simp
  moreover from c have "part c = idx" by (rule emit_part_part)
  ultimately show "idx \<in> part ` set (emitted (generate_fuselage_collisions pf self))"
    by force
next
  assume f: "list_all isfinite b0 \<and> list_all isfinite b1"
  then have fb: "list_all isfinite b0" "list_all isfinite b1" by simp_all
  show "(py_max b0 - py_min b0 < Finite 0.01 \<and> py_max b1 - py_min b1 < Finite 0.01)
                = (Max (set (map the_real b0)) - Min (set (map the_real b0)) < 0.01
                   \<and> Max (set (map the_real b1)) - Min (set (map the_real b1)) < 0.01)"
    unfolding extent_finite[OF fb(1) assms(4)] extent_finite[OF fb(2) assms(5)] extent_below
    by (rule refl)
qed

text \<open>
  The flat part (sizes 0.001, 0.001, 100) has no block; the part of the minimal case has
  one.
\<close>

theorem degenerate_rejection_witness:
  "0 \<notin> part ` set (emitted (generate_fuselage_collisions Map.empty (with_store flat_store)))
   \<and> 0 \<in> part ` set (emitted (generate_fuselage_collisions Map.empty (with_store box_store)))"
proof -
  note f = flat_samples[OF data_with_store, of Map.empty, symmetric]
  have fd: "py_max [Finite 0, Finite 0.001] - py_min [Finite 0, Finite 0.001] < Finite 0.01"
    by (simp add: py_min_def py_max_def minus_pyfloat_def ovf_small)
  have ne: "[Finite 0, Finite 0.001] \<noteq> []" by simp
  from degenerate_rejection[OF f ne ne] fd
  have a: "0 \<notin> part ` set (emitted (generate_fuselage_collisions Map.empty (with_store flat_store)))"
    by blast
  note b = box_samples[OF data_with_store, of Map.empty, symmetric]
  have bd: "\<not> (py_max [Finite 0, Finite 10] - py_min [Finite 0, Finite 10] < Finite 0.01
      \<and> py_max [Finite 0, Finite 2] - py_min [Finite 0, Finite 2] < Finite 0.01)"
    by (simp add: py_min_def py_max_def minus_pyfloat_def ovf_small)
  have bn: "[Finite 0, Finite 10] \<noteq> []" "[Finite 0, Finite 2] \<noteq> []"
    "[Finite 0, Finite 1] \<noteq> []" by simp_all
  have r: "\<forall>e. snd (generate_fuselage_collisions Map.empty (with_store box_store)) \<noteq> Inl e"
    by (simp add: box_run[OF data_with_store])
  from degenerate_rejection[OF b bn(1,2)] bd bn(3) r
  have "0 \<in> part ` set (emitted (generate_fuselage_collisions Map.empty (with_store box_store)))"
    by blast
  with a show ?thesis by simp
qed

subsection \<open>Mass and the inertial block\<close>

lemma get_value_data: "data s = data s' \<Longrightarrow> get_value s k d = get_value s' k d"
  unfolding get_value_def by (erule subst) (rule refl)

text \<open>
  The constructor reads the primary key and, where that is zero or absent (the default
  is zero), the legacy key.
\<close>

lemma mass_resolution:
  "mass_lb (init pf content) =
     (let self = init pf content;
          primary = get_value self ''acf/_m_empty'' (One (Num (Finite 0)))
      in if eq_zero primary then get_value self ''_cgpt/0/_w_now'' (One (Num (Finite 0))) else primary)"
proof -
  define s0 where "s0 = \<lparr>data = parse_acf pf content, LB_TO_KG = Finite 0.453592,
                  FT_TO_M = Finite 0.3048, DEFAULT_INERTIA = Finite 0.1,
                  default_power_watt = Finite 400, default_rotor_inertia = Finite 0.0001,
                  mass_lb = One (Num (Finite 0))\<rparr>"
  define s1 where "s1 = s0\<lparr>mass_lb := get_value s0 ''acf/_m_empty'' (One (Num (Finite 0)))\<rparr>"
  have i: "init pf content =
      (if eq_zero (mass_lb s1) then s1\<lparr>mass_lb := get_value s1 ''_cgpt/0/_w_now'' (One (Num (Finite 0)))\<rparr>
       else s1)"
    unfolding init_def Let_def s1_def s0_def by (rule refl)
  have d: "data (init pf content) = data s0" "data s1 = data s0"
    by (simp_all add: i s1_def)
  have g: "get_value (init pf content) k v = get_value s0 k v" "get_value s1 k v = get_value s0 k v"
    for k v
    using d by (auto intro: get_value_data)
  have m: "mass_lb (init pf content) =
      (if eq_zero (get_value s0 ''acf/_m_empty'' (One (Num (Finite 0))))
       then get_value s0 ''_cgpt/0/_w_now'' (One (Num (Finite 0)))
       else get_value s0 ''acf/_m_empty'' (One (Num (Finite 0))))"
    by (simp add: i g) (simp add: s1_def)
  show ?thesis unfolding Let_def g by (rule m)
qed

text \<open>
  With no positive mass (zero, negative or NaN), the warning is printed and the block
  carries the placeholder mass 1. With a positive mass, the message is printed and the
  call returns \<^verbatim>\<open>None\<close>.
\<close>

lemma inertial_placeholder:
  "mass_lb self = One (Num m) \<Longrightarrow> \<not> Finite 0 < m \<Longrightarrow>
   generate_inertial_xml self =
     ([Warn_mass],
      Inr (Some \<lparr>mass = Finite 1, i_xx = Finite 0.05, i_yy = Finite 0.05, i_zz = Finite 0.05\<rparr>))"
  by (simp add: generate_inertial_xml_def ovf_small)

lemma inertial_mass_found:
  "mass_lb self = One (Num m) \<Longrightarrow> Finite 0 < m \<Longrightarrow>
   generate_inertial_xml self = ([Info_mass m (m * LB_TO_KG self)], Inr None)"
  by (simp add: generate_inertial_xml_def)

text \<open>
  Claim C1 at the text \<^verbatim>\<open>P _cgpt/0/_w_now 27.0\<close>: the legacy key resolves the mass to 27,
  the message reports \<open>27 * 0.453592\<close> kg, and the call returns \<^verbatim>\<open>None\<close>: no inertial block
  carries that mass, since the \<^verbatim>\<open>return\<close> belongs to the \<^verbatim>\<open>else\<close> branch.
\<close>

theorem inertial_lost_when_mass_found:
  "generate_inertial_xml
     (init (\<lambda>s. if s = ''27.0'' then Some (Finite 27) else None) ''P _cgpt/0/_w_now 27.0'')
   = ([Info_mass (Finite 27) (Finite (27 * 0.453592))], Inr None)"
  by (simp add: generate_inertial_xml_def init_def Let_def get_value_def endswith_def
      parse_acf_def parse_line_def strip_def split_ws_eval startswith_def ovf_small)

subsection \<open>Keys the scan cannot read\<close>

text \<open>
  The scan is a fold of \<open>scan_item\<close>, which turns every exception of the \<^verbatim>\<open>try\<close> block
  into a diagnostic; a key that gives no point leaves every bucket and the count as they
  were, and the keys after it are scanned as before (\<open>scan_fold_bounds\<close>). With a count
  of zero no part is emitted and nothing is raised.
\<close>

lemma scan_skips_key:
  assumes "points pf [(key, val)] = []"
  shows "fst (scan_item pf (key, val) st) = fst st"
    and "fst (snd (scan_item pf (key, val) st)) = fst (snd st)"
  using assms by (simp_all add: scan_item_bounds scan_item_count)

lemma emit_parts_none:
  "\<forall>(idx, b) \<in> set ps. emit_part pf self idx b = Inr None \<Longrightarrow> emit_parts pf self ps = Inr []"
  by (induction ps) auto

lemma zero_points_no_parts:
  assumes "fst (snd (scan pf self)) = 0"
  shows "emit_parts pf self (fst (scan pf self)) = Inr []"
proof (rule emit_parts_none, clarify)
  fix idx b0 b1 b2
  assume "(idx, b0, b1, b2) \<in> set (fst (scan pf self))"
  then have b: "b0 = samples pf self idx 0" by (simp add: scan_entry)
  from assms have "filter (\<lambda>(i, a, v). a < 3) (points pf (data self)) = []"
    by (simp add: scan_count)
  then have "\<forall>p \<in> set (points pf (data self)). \<not> (case p of (i, a, v) \<Rightarrow> a < 3)"
    by (simp add: filter_empty_conv)
  then have "filter (\<lambda>(i, a, v). i = idx \<and> a = 0) (points pf (data self)) = []"
    by (auto simp: filter_empty_conv)
  with b have "b0 = []" by (simp add: samples_def)
  then show "emit_part pf self idx (b0, b1, b2) = Inr None" by (simp add: emit_part_missing)
qed

lemma zero_points_result:
  assumes "fst (snd (scan pf self)) = 0"
  shows "snd (generate_fuselage_collisions pf self) = Inr None
       \<or> snd (generate_fuselage_collisions pf self) = Inr (Some [])"
proof -
  obtain pb n ds where s: "scan pf self = (pb, n, ds)" by (cases "scan pf self")
  from zero_points_no_parts[OF assms] s show ?thesis
    by (simp add: generate_fuselage_collisions_def)
qed

text \<open>
  Where no key gives a point (none passes the filter, or each fails in steps 1 to 3),
  \<^verbatim>\<open>parts_bounds\<close> stays empty: the warning is printed and the empty string returned.
\<close>

lemma no_points_empty_result:
  assumes "points pf (data self) = []"
  shows "snd (generate_fuselage_collisions pf self) = Inr None"
    and "fst (generate_fuselage_collisions pf self) =
           snd (snd (scan pf self)) @ [Warn_no_points (length (data self))]"
proof -
  obtain pb n ds where s: "scan pf self = (pb, n, ds)" by (cases "scan pf self")
  from assms have "fst (scan pf self) = []" by (simp add: scan_def scan_fold_bounds)
  with s have "pb = []" by simp
  with s show "snd (generate_fuselage_collisions pf self) = Inr None"
    and "fst (generate_fuselage_collisions pf self) =
           snd (snd (scan pf self)) @ [Warn_no_points (length (data self))]"
    by (simp_all add: generate_fuselage_collisions_def)
qed


text \<open>
  Claim C8 at the text \<^verbatim>\<open>P _part/0/_geo_xyz/1,2,5 1.0\<close>: the axis 5 passes \<^verbatim>\<open>isdigit\<close>, the
  buckets of part 0 are created, and the append to bucket 5 raises \<^verbatim>\<open>KeyError\<close>. No point
  is counted, yet \<^verbatim>\<open>parts_bounds\<close> is not empty: the call prints that it found 0 points in
  1 part and returns the header with no block, not the warning and the empty string.
\<close>

theorem no_points_yet_no_warning:
  "scan (\<lambda>s. if s = ''1.0'' then Some (Finite 1) else None)
     (init (\<lambda>s. if s = ''1.0'' then Some (Finite 1) else None) ''P _part/0/_geo_xyz/1,2,5 1.0'')
     = ([(0, [], [], [])], 0, [Debug_error ''_part/0/_geo_xyz/1,2,5'' KeyError])
   \<and> generate_fuselage_collisions (\<lambda>s. if s = ''1.0'' then Some (Finite 1) else None)
     (init (\<lambda>s. if s = ''1.0'' then Some (Finite 1) else None) ''P _part/0/_geo_xyz/1,2,5 1.0'')
     = ([Debug_error ''_part/0/_geo_xyz/1,2,5'' KeyError, Info_points 0 1], Inr (Some []))"
proof -
  let ?pf = "\<lambda>s. if s = ''1.0'' then Some (Finite 1) else None"
  have d: "data (init ?pf ''P _part/0/_geo_xyz/1,2,5 1.0'') = [(''_part/0/_geo_xyz/1,2,5'', One (Num (Finite 1)))]"
    by (simp add: data_init parse_acf_def parse_line_def strip_def split_ws_eval startswith_def)
  have s: "scan ?pf (init ?pf ''P _part/0/_geo_xyz/1,2,5 1.0'')
     = ([(0, [], [], [])], 0, [Debug_error ''_part/0/_geo_xyz/1,2,5'' KeyError])"
    by (simp add: scan_def d scan_item_def store_point_def key_eval)
  show ?thesis
    by (simp add: generate_fuselage_collisions_def s d)
qed



end
